theory Spec2Isabelle
  imports Complex_Main "HOL-Library.AList"
begin

chapter \<open>An endpoint usage tracker over a key-value store\<close>

text \<open>
  The tracker records each HTTP request in three aggregate records of a key-value store
  (global, daily, performance) and in a list of raw events, reads statistics back from them,
  and a reporter turns the statistics and the discovered routes into a report that a
  scheduler sends out. The sections below embed the tracker (\<^verbatim>\<open>tracker.ts\<close>), the parts of
  route discovery and of the reporter that the report's counts and its dispatch depend on, and
  prove what the specification says about them.
\<close>

section \<open>JavaScript strings and numbers\<close>

text \<open>
  A JavaScript string is modelled as a \<^typ>\<open>string\<close>, read as ASCII. Timestamps, status
  codes and counters are \<^typ>\<open>int\<close>; measured quantities (response time, memory, CPU) are
  \<^typ>\<open>real\<close>, so the rounding of IEEE doubles is not part of the model. An optional
  property (\<^verbatim>\<open>responseTime?: number\<close>) is an \<^typ>\<open>'a option\<close>, \<^term>\<open>None\<close> being
  \<^verbatim>\<open>undefined\<close>.
\<close>

definition startsWith :: "string \<Rightarrow> string \<Rightarrow> bool" where
  \<comment> \<open>\<^verbatim>\<open>s.startsWith(p)\<close>\<close>
  "startsWith s p = (take (length p) s = p)"

fun removeFirst :: "string \<Rightarrow> string \<Rightarrow> string" where
  \<comment> \<open>\<^verbatim>\<open>s.replace(pat, '')\<close> with a string pattern: only the first occurrence goes\<close>
  "removeFirst pat [] = []"
| "removeFirst pat (c # cs) =
     (if startsWith (c # cs) pat then drop (length pat) (c # cs) else c # removeFirst pat cs)"

definition split2 :: "char \<Rightarrow> string \<Rightarrow> string \<times> string option" where
  \<comment> \<open>\<^verbatim>\<open>const [a, b] = s.split(sep, 2)\<close>: the limit cuts the array, the rest of the
      string is dropped; \<^verbatim>\<open>b\<close> is undefined when \<^verbatim>\<open>s\<close> has no separator\<close>
  "split2 sep s =
     (takeWhile (\<lambda>c. c \<noteq> sep) s,
      case dropWhile (\<lambda>c. c \<noteq> sep) s of
        [] \<Rightarrow> None
      | _ # t \<Rightarrow> Some (takeWhile (\<lambda>c. c \<noteq> sep) t))"

definition jsString :: "string option \<Rightarrow> string" where
  \<comment> \<open>a possibly undefined string inside a template literal\<close>
  "jsString s = (case s of None \<Rightarrow> ''undefined'' | Some t \<Rightarrow> t)"

definition isDigit :: "char \<Rightarrow> bool" where
  \<comment> \<open>the regular expression class \<^verbatim>\<open>\d\<close>\<close>
  "isDigit c = (c \<in> set ''0123456789'')"

definition isHexDash :: "char \<Rightarrow> bool" where
  \<comment> \<open>the regular expression class \<^verbatim>\<open>[a-f0-9-]\<close>\<close>
  "isHexDash c = (c \<in> set ''abcdef0123456789-'')"

definition upperChar :: "char \<Rightarrow> char" where
  "upperChar c =
     (case map_of (zip ''abcdefghijklmnopqrstuvwxyz'' ''ABCDEFGHIJKLMNOPQRSTUVWXYZ'') c of
        None \<Rightarrow> c
      | Some u \<Rightarrow> u)"

definition toUpperCase :: "string \<Rightarrow> string" where
  "toUpperCase s = map upperChar s"

function natDigits :: "nat \<Rightarrow> string" where
  "natDigits n =
     (if n < 10 then [''0123456789'' ! n] else natDigits (n div 10) @ [''0123456789'' ! (n mod 10)])"
  by pat_completeness auto
termination
  by (relation "measure id") auto

declare natDigits.simps [simp del]

definition numberToString :: "int \<Rightarrow> string" where
  \<comment> \<open>\<^verbatim>\<open>n.toString()\<close> and \<^verbatim>\<open>`${n}`\<close> for an integer below \<^verbatim>\<open>1e21\<close> in size\<close>
  "numberToString i = (if i < 0 then CHR ''-'' # natDigits (nat (- i)) else natDigits (nat i))"

definition digitValue :: "char \<Rightarrow> int" where
  "digitValue c =
     (case map_of (zip ''0123456789abcdefABCDEF''
        [0, 1, 2, 3, 4, 5, 6, 7, 8, 9, 10, 11, 12, 13, 14, 15, 10, 11, 12, 13, 14, 15]) c of
        None \<Rightarrow> 0
      | Some d \<Rightarrow> d)"

definition digitsValue :: "int \<Rightarrow> string \<Rightarrow> int" where
  "digitsValue radix ds = foldl (\<lambda>acc c. acc * radix + digitValue c) 0 ds"

definition isHexDigit :: "char \<Rightarrow> bool" where
  "isHexDigit c = (c \<in> set ''0123456789abcdefABCDEF'')"

definition isSpace :: "char \<Rightarrow> bool" where
  "isSpace c = (c \<in> set [CHR 0x09, CHR 0x0A, CHR 0x0B, CHR 0x0C, CHR 0x0D, CHR 0x20])"

definition parseIntString :: "string \<Rightarrow> int option" where
  \<comment> \<open>\<^verbatim>\<open>parseInt(s)\<close> on a string: leading white space, a sign, a \<^verbatim>\<open>0x\<close> prefix, then
      the longest run of digits; \<^term>\<open>None\<close> is \<^verbatim>\<open>NaN\<close>\<close>
  "parseIntString s =
     (let s1 = dropWhile isSpace s;
          neg = startsWith s1 ''-'';
          s2 = (if startsWith s1 ''-'' \<or> startsWith s1 ''+'' then tl s1 else s1);
          hex = (startsWith s2 ''0x'' \<or> startsWith s2 ''0X'');
          ds = (if hex then takeWhile isHexDigit (drop 2 s2) else takeWhile isDigit s2);
          v = digitsValue (if hex then 16 else 10) ds
      in if ds = [] then None else Some (if neg then - v else v))"

definition parseInt :: "real \<Rightarrow> int" where
  \<comment> \<open>\<^verbatim>\<open>parseInt\<close> of the decimal string of a number: its integer part\<close>
  "parseInt v = (if 0 \<le> v then \<lfloor>v\<rfloor> else \<lceil>v\<rceil>)"

datatype number = Num real | NaN | Infinity

definition divide_number :: "real \<Rightarrow> real \<Rightarrow> number" where
  \<comment> \<open>\<^verbatim>\<open>a / b\<close> for \<^verbatim>\<open>a \<ge> 0\<close>, \<^verbatim>\<open>b \<ge> 0\<close>: a zero divisor gives \<^verbatim>\<open>NaN\<close> or \<^verbatim>\<open>Infinity\<close>\<close>
  "divide_number a b = (if b = 0 then (if a = 0 then NaN else Infinity) else Num (a / b))"

fun times_number :: "number \<Rightarrow> real \<Rightarrow> number" where
  \<comment> \<open>\<^verbatim>\<open>x * c\<close> for a constant \<^verbatim>\<open>c > 0\<close>\<close>
  "times_number (Num x) c = Num (x * c)"
| "times_number NaN c = NaN"
| "times_number Infinity c = Infinity"

fun Math_round :: "number \<Rightarrow> number" where
  \<comment> \<open>\<^verbatim>\<open>Math.round\<close>: the nearest integer, a tie going up\<close>
  "Math_round (Num x) = Num (of_int \<lfloor>x + 1 / 2\<rfloor>)"
| "Math_round NaN = NaN"
| "Math_round Infinity = Infinity"

fun classItems :: "string \<Rightarrow> char \<Rightarrow> bool \<times> string" where
  \<comment> \<open>the body of a glob class \<^verbatim>\<open>[...]\<close> against one character: whether an item matches,
      and the pattern after the closing bracket\<close>
  "classItems [] c = (False, [])"
| "classItems [a] c = (if a = CHR '']'' then (False, []) else (a = c, []))"
| "classItems (a # b # r) c =
     (if a = CHR 0x5C then (b = c \<or> fst (classItems r c), snd (classItems r c))
      else if a = CHR '']'' then (False, b # r)
      else if b = CHR ''-'' \<and> r \<noteq> [] then
        ((let lo = min (of_char a) (of_char (hd r)) :: nat; hi = max (of_char a) (of_char (hd r)) :: nat
          in lo \<le> of_char c \<and> of_char c \<le> hi) \<or> fst (classItems (tl r) c),
         snd (classItems (tl r) c))
      else (a = c \<or> fst (classItems (b # r) c), snd (classItems (b # r) c)))"

function globMatch :: "string \<Rightarrow> string \<Rightarrow> bool" where
  \<comment> \<open>the glob patterns of the store's \<^verbatim>\<open>KEYS\<close> command\<close>
  "globMatch [] s = (s = [])"
| "globMatch (p # ps) [] = (p = CHR ''*'' \<and> globMatch ps [])"
| "globMatch (p # ps) (c # t) =
     (if p = CHR ''*'' then (globMatch ps (c # t) \<or> globMatch (p # ps) t)
      else if p = CHR ''?'' then globMatch ps t
      else if p = CHR ''['' then
        (let neg = startsWith ps ''^'';
             body = (if neg then tl ps else ps)
         in (fst (classItems body c) \<noteq> neg) \<and> globMatch (snd (classItems body c)) t)
      else if p = CHR 0x5C \<and> ps \<noteq> [] then (hd ps = c \<and> globMatch (tl ps) t)
      else (p = c \<and> globMatch ps t))"
  by pat_completeness auto
termination
  by (relation "measures [\<lambda>(p, s). length s, \<lambda>(p, s). length p]") auto

section \<open>Data model\<close>

record usageData =
  timestamp :: int
  httpMethod :: string
  path :: string
  statusCode :: int
  responseTime :: "real option"
  userAgent :: "string option"
  ip :: "string option"
  memoryUsage :: "real option"
  cpuUsage :: "real option"

record performanceMetrics =
  p50ResponseTime :: "real option"
  p95ResponseTime :: "real option"
  p99ResponseTime :: "real option"
  slowRequestCount :: int
  errorRate :: real
  throughput :: real
  avgMemoryUsage :: real
  avgCpuUsage :: real

record endpointStats =
  statPath :: "string option"
  statMethod :: string
  count :: int
  lastAccessed :: int
  firstAccessed :: int
  averageResponseTime :: "real option"
  statusCodes :: "(string \<times> int) list"
  performance :: "performanceMetrics option"

record performanceTracking =
  enabled :: bool
  slowThresholdMs :: real
  percentiles :: "real list"
  memoryTracking :: bool
  cpuTracking :: bool

text \<open>The tracker's configuration as its constructor leaves it, every default filled in.\<close>

record config =
  keyPrefix :: string
  trackingEnabled :: bool
  excludePaths :: "string list"
  includeQueryParams :: bool
  performanceTracking :: performanceTracking

section \<open>The key-value store\<close>

text \<open>
  The store as the tracker uses it: hashes of fields and lists of raw events, each under a
  string key, and the time to live set on a key. A hash field holds the decimal string of a
  number; the model keeps the number. Hashes and lists live in two tables, so a command never
  meets a key of the other type; the 64-bit range of \<^verbatim>\<open>HINCRBY\<close> is not modelled.
  A date is its epoch time in milliseconds.
\<close>

type_synonym hash = "(string \<times> real) list"

record redis =
  hashes :: "(string \<times> hash) list"
  rawLists :: "(string \<times> usageData list) list"
  expiry :: "(string \<times> int) list"

definition emptyRedis :: redis where
  "emptyRedis = \<lparr>hashes = [], rawLists = [], expiry = []\<rparr>"

definition hget :: "hash \<Rightarrow> string \<Rightarrow> real option" where
  \<comment> \<open>\<^verbatim>\<open>data.field\<close> of the object \<^verbatim>\<open>hgetall\<close> returns\<close>
  "hget h f = map_of h f"

definition hgetOr0 :: "hash \<Rightarrow> string \<Rightarrow> real" where
  \<comment> \<open>\<^verbatim>\<open>data.field || '0'\<close>, as a number\<close>
  "hgetOr0 h f = (case hget h f of None \<Rightarrow> 0 | Some v \<Rightarrow> v)"

definition isInteger :: "real \<Rightarrow> bool" where
  "isInteger v = (v = of_int \<lfloor>v\<rfloor>)"

definition hincrby :: "string \<Rightarrow> int \<Rightarrow> hash \<Rightarrow> hash" where
  \<comment> \<open>a missing field counts from 0; a field that is no integer is left as it is (the
      command's error reply stays inside the pipeline's result)\<close>
  "hincrby f n h =
     (case hget h f of
        None \<Rightarrow> AList.update f (of_int n) h
      | Some v \<Rightarrow> if isInteger v then AList.update f (v + of_int n) h else h)"

definition hincrbyfloat :: "string \<Rightarrow> real \<Rightarrow> hash \<Rightarrow> hash" where
  "hincrbyfloat f x h =
     (case hget h f of
        None \<Rightarrow> AList.update f x h
      | Some v \<Rightarrow> AList.update f (v + x) h)"

definition hsetnx :: "string \<Rightarrow> real \<Rightarrow> hash \<Rightarrow> hash" where
  "hsetnx f v h = (case hget h f of None \<Rightarrow> AList.update f v h | Some _ \<Rightarrow> h)"

definition hset :: "string \<Rightarrow> real \<Rightarrow> hash \<Rightarrow> hash" where
  "hset f v h = AList.update f v h"

definition hgetall :: "redis \<Rightarrow> string \<Rightarrow> hash" where
  \<comment> \<open>a key that holds no hash answers with no fields\<close>
  "hgetall st key = (case map_of (hashes st) key of None \<Rightarrow> [] | Some h \<Rightarrow> h)"

definition lrange :: "redis \<Rightarrow> string \<Rightarrow> usageData list" where
  \<comment> \<open>\<^verbatim>\<open>lrange(key, 0, -1)\<close>: the whole list\<close>
  "lrange st key = (case map_of (rawLists st) key of None \<Rightarrow> [] | Some l \<Rightarrow> l)"

definition putHash :: "string \<Rightarrow> hash \<Rightarrow> redis \<Rightarrow> redis" where
  \<comment> \<open>a hash left without fields is no key any more\<close>
  "putHash key h st =
     st\<lparr>hashes := (if h = [] then AList.delete key (hashes st) else AList.update key h (hashes st))\<rparr>"

definition keyExists :: "redis \<Rightarrow> string \<Rightarrow> bool" where
  "keyExists st key = (\<not> (hgetall st key = [] \<and> lrange st key = []))"

definition redisKeys :: "redis \<Rightarrow> string \<Rightarrow> string list" where
  \<comment> \<open>\<^verbatim>\<open>redis.keys(pattern)\<close>, in the order of the tables\<close>
  "redisKeys st pattern =
     filter (\<lambda>k. keyExists st k \<and> globMatch pattern k)
       (remdups (map fst (hashes st) @ map fst (rawLists st)))"

definition lpush :: "string \<Rightarrow> usageData \<Rightarrow> redis \<Rightarrow> redis" where
  "lpush key item st = st\<lparr>rawLists := AList.update key (item # lrange st key) (rawLists st)\<rparr>"

definition hdel :: "string \<Rightarrow> string list \<Rightarrow> redis \<Rightarrow> redis" where
  "hdel key fs st = putHash key (filter (\<lambda>(f, v). f \<notin> set fs) (hgetall st key)) st"

text \<open>
  A pipeline is the list of the commands queued on it; \<^verbatim>\<open>pipeline.exec()\<close> runs them in
  order.
\<close>

datatype command =
    HINCRBY string string int
  | HINCRBYFLOAT string string real
  | HSETNX string string real
  | HSET string string real
  | EXPIRE string int

fun execCommand :: "command \<Rightarrow> redis \<Rightarrow> redis" where
  "execCommand (HINCRBY key f n) st = putHash key (hincrby f n (hgetall st key)) st"
| "execCommand (HINCRBYFLOAT key f x) st = putHash key (hincrbyfloat f x (hgetall st key)) st"
| "execCommand (HSETNX key f v) st = putHash key (hsetnx f v (hgetall st key)) st"
| "execCommand (HSET key f v) st = putHash key (hset f v (hgetall st key)) st"
| "execCommand (EXPIRE key seconds) st =
     (if keyExists st key then st\<lparr>expiry := AList.update key seconds (expiry st)\<rparr> else st)"

definition exec :: "command list \<Rightarrow> redis \<Rightarrow> redis" where
  "exec pipeline st = fold execCommand pipeline st"

section \<open>The tracker: recording a request\<close>

definition shouldTrackPath :: "config \<Rightarrow> string \<Rightarrow> bool" where
  "shouldTrackPath cfg p =
     (if \<not> trackingEnabled cfg then False
      else \<not> list_ex (\<lambda>excludePath. startsWith p excludePath) (excludePaths cfg))"

function replaceNumeric :: "string \<Rightarrow> string" where
  \<comment> \<open>\<^verbatim>\<open>path.replace(/\/\d+/g, '/:id')\<close>\<close>
  "replaceNumeric [] = []"
| "replaceNumeric (c # cs) =
     (if c = CHR ''/'' \<and> takeWhile isDigit cs \<noteq> []
      then ''/:id'' @ replaceNumeric (dropWhile isDigit cs)
      else c # replaceNumeric cs)"
  by pat_completeness auto
termination
  by (relation "measure length") (auto simp: le_imp_less_Suc length_dropWhile_le)

function replaceUuid :: "string \<Rightarrow> string" where
  \<comment> \<open>\<^verbatim>\<open>path.replace(/\/[a-f0-9-]{36}/g, '/:uuid')\<close>\<close>
  "replaceUuid [] = []"
| "replaceUuid (c # cs) =
     (if c = CHR ''/'' \<and> 36 \<le> length (takeWhile isHexDash cs)
      then ''/:uuid'' @ replaceUuid (drop 36 cs)
      else c # replaceUuid cs)"
  by pat_completeness auto
termination
  by (relation "measure length") auto

definition normalizedPath :: "config \<Rightarrow> string \<Rightarrow> string" where
  \<comment> \<open>the value of \<^verbatim>\<open>path\<close> when \<^verbatim>\<open>normalizeEndpoint\<close> returns\<close>
  "normalizedPath cfg path0 =
     (let path1 = (if \<not> includeQueryParams cfg then takeWhile (\<lambda>c. c \<noteq> CHR ''?'') path0 else path0);
          path2 = replaceNumeric path1;
          path3 = replaceUuid path2
      in path3)"

definition normalizeEndpoint :: "config \<Rightarrow> string \<Rightarrow> string \<Rightarrow> string" where
  "normalizeEndpoint cfg method0 path0 = toUpperCase method0 @ '':'' @ normalizedPath cfg path0"

definition whenTruthy :: "real option \<Rightarrow> (real \<Rightarrow> 'a list) \<Rightarrow> 'a list" where
  \<comment> \<open>\<^verbatim>\<open>if (x) { ... }\<close> on an optional number: undefined and 0 are falsy\<close>
  "whenTruthy x body = (case x of None \<Rightarrow> [] | Some v \<Rightarrow> if v = 0 then [] else body v)"

definition updateDailyStats :: "config \<Rightarrow> string \<Rightarrow> string \<Rightarrow> usageData \<Rightarrow> redis \<Rightarrow> redis" where
  \<comment> \<open>\<^verbatim>\<open>today\<close> is the clock's UTC date, \<^verbatim>\<open>new Date().toISOString().split('T')[0]\<close>\<close>
  "updateDailyStats cfg today endpoint data st =
     (let dailyKey = keyPrefix cfg @ '':daily:'' @ today @ '':'' @ endpoint;
          pipeline =
            [HINCRBY dailyKey ''count'' 1,
             HINCRBY dailyKey (''status_'' @ numberToString (statusCode data)) 1,
             HSETNX dailyKey ''first_accessed'' (of_int (timestamp data)),
             HSET dailyKey ''last_accessed'' (of_int (timestamp data))]
            @ whenTruthy (responseTime data) (\<lambda>rt.
                [HINCRBYFLOAT dailyKey ''total_response_time'' rt,
                 HINCRBY dailyKey ''response_count'' 1])
            @ [EXPIRE dailyKey (90 * 24 * 60 * 60)]
      in exec pipeline st)"

definition updateCounters :: "config \<Rightarrow> string \<Rightarrow> usageData \<Rightarrow> redis \<Rightarrow> redis" where
  "updateCounters cfg endpoint data st =
     (let globalKey = keyPrefix cfg @ '':global:'' @ endpoint;
          pipeline =
            [HINCRBY globalKey ''count'' 1,
             HSETNX globalKey ''first_accessed'' (of_int (timestamp data)),
             HSET globalKey ''last_accessed'' (of_int (timestamp data)),
             HINCRBY globalKey (''status_'' @ numberToString (statusCode data)) 1]
            @ whenTruthy (responseTime data) (\<lambda>rt.
                [HINCRBYFLOAT globalKey ''total_response_time'' rt,
                 HINCRBY globalKey ''response_count'' 1])
      in exec pipeline st)"

definition cleanupOldThroughputData :: "string \<Rightarrow> int \<Rightarrow> redis \<Rightarrow> redis" where
  "cleanupOldThroughputData perfKey currentTimestamp st =
     (let data = hgetall st perfKey;
          oneHourAgo = currentTimestamp - (60 * 60 * 1000);
          fieldsToDelete =
            filter (\<lambda>key. case parseIntString (removeFirst ''throughput_'' key) of
                             None \<Rightarrow> False
                           | Some t \<Rightarrow> t < oneHourAgo)
              (filter (\<lambda>key. startsWith key ''throughput_'') (map fst data))
      in if length fieldsToDelete > 0 then hdel perfKey fieldsToDelete st else st)"

definition updatePerformanceStats :: "config \<Rightarrow> string \<Rightarrow> usageData \<Rightarrow> redis \<Rightarrow> redis" where
  "updatePerformanceStats cfg endpoint data st =
     (if \<not> enabled (performanceTracking cfg) then st
      else
        let perfKey = keyPrefix cfg @ '':performance:'' @ endpoint;
            minuteKey = (timestamp data div 60000) * 60000;
            pipeline =
              [HINCRBY perfKey ''total_requests'' 1,
               HSETNX perfKey ''first_accessed'' (of_int (timestamp data)),
               HSET perfKey ''last_accessed'' (of_int (timestamp data))]
              @ whenTruthy (responseTime data) (\<lambda>rt.
                  [HINCRBYFLOAT perfKey ''total_response_time'' rt,
                   HINCRBY perfKey ''response_count'' 1]
                  @ (if rt > slowThresholdMs (performanceTracking cfg)
                     then [HINCRBY perfKey ''slow_requests'' 1] else []))
              @ (if statusCode data \<ge> 400 then [HINCRBY perfKey ''error_requests'' 1] else [])
              @ whenTruthy (memoryUsage data) (\<lambda>m.
                  [HINCRBYFLOAT perfKey ''total_memory'' m,
                   HINCRBY perfKey ''memory_count'' 1])
              @ whenTruthy (cpuUsage data) (\<lambda>c.
                  [HINCRBYFLOAT perfKey ''total_cpu'' c,
                   HINCRBY perfKey ''cpu_count'' 1])
              @ [HINCRBY perfKey (''throughput_'' @ numberToString minuteKey) 1,
                 EXPIRE perfKey (90 * 24 * 60 * 60)]
        in cleanupOldThroughputData perfKey (timestamp data) (exec pipeline st))"

definition trackUsage :: "config \<Rightarrow> int \<Rightarrow> string \<Rightarrow> usageData \<Rightarrow> redis \<Rightarrow> redis" where
  \<comment> \<open>\<^verbatim>\<open>now\<close> is \<^verbatim>\<open>Date.now()\<close>; the \<^verbatim>\<open>timestamp\<close> of the argument is not read\<close>
  "trackUsage cfg now today usage st =
     (if \<not> shouldTrackPath cfg (path usage) then st
      else
        let normalizedEndpoint = normalizeEndpoint cfg (httpMethod usage) (path usage);
            data = usage\<lparr>timestamp := now\<rparr>;
            rawKey = keyPrefix cfg @ '':raw:'' @ normalizedEndpoint;
            st1 = lpush rawKey data st;
            st2 = exec [EXPIRE rawKey (30 * 24 * 60 * 60)] st1;
            st3 = updateDailyStats cfg today normalizedEndpoint data st2;
            st4 = updateCounters cfg normalizedEndpoint data st3;
            st5 = updatePerformanceStats cfg normalizedEndpoint data st4
        in st5)"

section \<open>The tracker: reading statistics\<close>

definition jsIndex :: "'a list \<Rightarrow> int \<Rightarrow> 'a option" where
  \<comment> \<open>\<^verbatim>\<open>xs[i]\<close>: undefined outside the array\<close>
  "jsIndex xs i = (if 0 \<le> i \<and> i < int (length xs) then Some (xs ! nat i) else None)"

definition calculatePercentile :: "real list \<Rightarrow> real \<Rightarrow> real option" where
  "calculatePercentile values percentile =
     (if length values = 0 then Some 0
      else
        let sortedValues = sort values;
            index = \<lceil>(percentile / 100) * real (length sortedValues)\<rceil> - 1
        in jsIndex sortedValues (max 0 index))"

definition truthyString :: "string option \<Rightarrow> bool" where
  "truthyString s = (case s of None \<Rightarrow> False | Some t \<Rightarrow> t \<noteq> [])"

definition keyPattern :: "config \<Rightarrow> string \<Rightarrow> string option \<Rightarrow> string option \<Rightarrow> string" where
  \<comment> \<open>the pattern both readers build, \<^verbatim>\<open>family\<close> being \<^verbatim>\<open>global\<close> or \<^verbatim>\<open>performance\<close>\<close>
  "keyPattern cfg family method0 path0 =
     (if truthyString method0 \<and> truthyString path0
      then keyPrefix cfg @ '':'' @ family @ '':'' @ normalizeEndpoint cfg (jsString method0) (jsString path0)
      else keyPrefix cfg @ '':'' @ family @ '':*'')"

definition orZero :: "real option \<Rightarrow> real" where
  \<comment> \<open>\<^verbatim>\<open>x || 0\<close>\<close>
  "orZero x = (case x of None \<Rightarrow> 0 | Some v \<Rightarrow> v)"

definition performanceEntry :: "config \<Rightarrow> redis \<Rightarrow> string \<Rightarrow> hash \<Rightarrow> endpointStats" where
  \<comment> \<open>one round of the loop of \<^verbatim>\<open>getPerformanceStats\<close>, for a key with fields\<close>
  "performanceEntry cfg st key data =
     (let endpoint = removeFirst (keyPrefix cfg @ '':performance:'') key;
          endpointMethod = fst (split2 CHR '':'' endpoint);
          endpointPath = snd (split2 CHR '':'' endpoint);
          rawKey = keyPrefix cfg @ '':raw:'' @ endpoint;
          rawData = lrange st rawKey;
          responseTimes =
            map (\<lambda>item. orZero (responseTime item))
              (filter (\<lambda>item. orZero (responseTime item) \<noteq> 0) rawData);
          totalRequests = parseInt (hgetOr0 data ''total_requests'');
          slowRequests = parseInt (hgetOr0 data ''slow_requests'');
          errorRequests = parseInt (hgetOr0 data ''error_requests'');
          perf = \<lparr>p50ResponseTime = calculatePercentile responseTimes 50,
                  p95ResponseTime = calculatePercentile responseTimes 95,
                  p99ResponseTime = calculatePercentile responseTimes 99,
                  slowRequestCount = slowRequests,
                  errorRate = (if totalRequests > 0
                               then real_of_int errorRequests / real_of_int totalRequests else 0),
                  throughput = hgetOr0 data ''throughput'',
                  avgMemoryUsage = hgetOr0 data ''avg_memory'',
                  avgCpuUsage = hgetOr0 data ''avg_cpu''\<rparr>
      in \<lparr>statPath = endpointPath,
          statMethod = endpointMethod,
          count = totalRequests,
          lastAccessed = parseInt (hgetOr0 data ''last_accessed''),
          firstAccessed = parseInt (hgetOr0 data ''first_accessed''),
          averageResponseTime = Some (hgetOr0 data ''avg_response_time''),
          statusCodes = [],
          performance = Some perf\<rparr>)"

definition p95Of :: "endpointStats \<Rightarrow> real" where
  \<comment> \<open>\<^verbatim>\<open>stat.performance?.p95ResponseTime || 0\<close>\<close>
  "p95Of stat = (case performance stat of None \<Rightarrow> 0 | Some perf \<Rightarrow> orZero (p95ResponseTime perf))"

definition getPerformanceStats ::
  "config \<Rightarrow> redis \<Rightarrow> string option \<Rightarrow> string option \<Rightarrow> endpointStats list" where
  "getPerformanceStats cfg st method0 path0 =
     (let pattern = keyPattern cfg ''performance'' method0 path0;
          keys = redisKeys st pattern;
          stats = map (\<lambda>key. performanceEntry cfg st key (hgetall st key))
                    (filter (\<lambda>key. length (hgetall st key) \<noteq> 0) keys)
      in sort_key (\<lambda>stat. - p95Of stat) stats)"

definition globalEntry :: "config \<Rightarrow> string \<Rightarrow> hash \<Rightarrow> endpointStats" where
  \<comment> \<open>one round of the loop of \<^verbatim>\<open>getEndpointStats\<close>, for a key with fields\<close>
  "globalEntry cfg key data =
     (let endpoint = removeFirst (keyPrefix cfg @ '':global:'') key;
          endpointMethod = fst (split2 CHR '':'' endpoint);
          endpointPath = snd (split2 CHR '':'' endpoint);
          codes = fold (\<lambda>field acc.
                     if startsWith field ''status_''
                     then AList.update (removeFirst ''status_'' field) (parseInt (hgetOr0 data field)) acc
                     else acc)
                   (map fst data) [];
          responseCount = parseInt (hgetOr0 data ''response_count'');
          totalResponseTime = hgetOr0 data ''total_response_time''
      in \<lparr>statPath = endpointPath,
          statMethod = endpointMethod,
          count = parseInt (hgetOr0 data ''count''),
          lastAccessed = parseInt (hgetOr0 data ''last_accessed''),
          firstAccessed = parseInt (hgetOr0 data ''first_accessed''),
          averageResponseTime =
            (if responseCount > 0 then Some (totalResponseTime / real_of_int responseCount) else None),
          statusCodes = codes,
          performance = None\<rparr>)"

definition getEndpointStats ::
  "config \<Rightarrow> redis \<Rightarrow> string option \<Rightarrow> string option \<Rightarrow> endpointStats list" where
  "getEndpointStats cfg st method0 path0 =
     (let pattern = keyPattern cfg ''global'' method0 path0;
          keys = redisKeys st pattern;
          stats = map (\<lambda>key. globalEntry cfg key (hgetall st key))
                    (filter (\<lambda>key. length (hgetall st key) \<noteq> 0) keys)
      in sort_key (\<lambda>stat. - count stat) stats)"

text \<open>
  The time zone of the process, as \<^verbatim>\<open>Date\<close> uses it: the offset of local time from UTC in
  milliseconds at a UTC instant, and the offset that belongs to a local time value.
\<close>

record timeZone =
  utcOffset :: "int \<Rightarrow> int"
  localOffset :: "int \<Rightarrow> int"

definition daysBefore :: "timeZone \<Rightarrow> int \<Rightarrow> int \<Rightarrow> int" where
  \<comment> \<open>\<^verbatim>\<open>d = new Date(); d.setDate(d.getDate() - days)\<close> at the clock reading \<^verbatim>\<open>now\<close>, for
      a whole number of days: the local time is moved back by that many calendar days, its time
      of day kept, and read as an instant again\<close>
  "daysBefore tz now days =
     (let localTime = now + utcOffset tz now;
          newDate = localTime - days * (24 * 60 * 60 * 1000)
      in newDate - localOffset tz newDate)"

definition getUnusedEndpoints ::
  "config \<Rightarrow> redis \<Rightarrow> timeZone \<Rightarrow> int \<Rightarrow> int \<Rightarrow> endpointStats list" where
  "getUnusedEndpoints cfg st tz now daysThreshold =
     (let allStats = getEndpointStats cfg st None None;
          thresholdDate = daysBefore tz now daysThreshold
      in filter (\<lambda>stat. lastAccessed stat < thresholdDate) allStats)"

section \<open>Route discovery and the reporter\<close>

record routeInfo =
  routeMethod :: string
  routePath :: string
  middleware :: "string list"
  handler :: string

record unusedEndpoint = routeInfo +
  daysSinceLastUse :: int
  totalRequests :: int

text \<open>
  \<^verbatim>\<open>discoveredRoutes\<close> is the \<^verbatim>\<open>Map\<close> of the routes found, in insertion order, one entry per
  key \<^verbatim>\<open>METHOD:path\<close>.
\<close>

type_synonym discoveredRoutes = "(string \<times> routeInfo) list"

definition findUnusedRoutes ::
  "config \<Rightarrow> redis \<Rightarrow> discoveredRoutes \<Rightarrow> timeZone \<Rightarrow> int \<Rightarrow> int \<Rightarrow> routeInfo list" where
  \<comment> \<open>an entry later in \<^verbatim>\<open>allStats\<close> replaces an earlier one with the same key in
      \<^verbatim>\<open>statsMap\<close>\<close>
  "findUnusedRoutes cfg st routes tz now daysThreshold =
     (let allStats = getEndpointStats cfg st None None;
          statsMap = map (\<lambda>stat. (statMethod stat @ '':'' @ jsString (statPath stat), stat)) allStats;
          thresholdDate = daysBefore tz now daysThreshold
      in filter (\<lambda>route.
                   case map_of (rev statsMap) (routeMethod route @ '':'' @ routePath route) of
                     None \<Rightarrow> True
                   | Some stats \<Rightarrow> lastAccessed stats < thresholdDate)
           (map snd routes))"

record routeUsage =
  total :: nat
  used :: int
  unused :: nat
  unusedRoutes :: "routeInfo list"
  usageStats :: "endpointStats list"

definition generateUsageReport ::
  "config \<Rightarrow> redis \<Rightarrow> discoveredRoutes \<Rightarrow> timeZone \<Rightarrow> int \<Rightarrow> int \<Rightarrow> routeUsage" where
  "generateUsageReport cfg st routes tz now daysThreshold =
     (let unusedRoutes = findUnusedRoutes cfg st routes tz now daysThreshold;
          allStats = getEndpointStats cfg st None None
      in \<lparr>total = length routes,
          used = int (length routes) - int (length unusedRoutes),
          unused = length unusedRoutes,
          unusedRoutes = unusedRoutes,
          usageStats = allStats\<rparr>)"

record performanceAlerts =
  alertsEnabled :: bool
  slowEndpointThresholdMs :: real
  errorRateThreshold :: real
  throughputDropThreshold :: real

record webhookConfig =
  url :: string
  headers :: "(string \<times> string) list"

record emailConfig =
  sender :: string
  recipients :: "string list"
  subject :: string

record slackConfig =
  webhookUrl :: string
  channel :: "string option"

record notifications =
  webhook :: "webhookConfig option"
  email :: "emailConfig option"
  slack :: "slackConfig option"

record htmlReportConfig =
  htmlEnabled :: bool
  outputPath :: "string option"

record reportConfig =
  reportingEnabled :: bool
  intervalHours :: real
  daysThreshold :: int
  performanceAlerts :: "performanceAlerts option"
  notifications :: notifications
  htmlReport :: "htmlReportConfig option"

text \<open>
  Of the report, the model keeps the route counts, the two counts of performance issues and
  the lists of unused endpoints; the dashboard average, the lists of performance issues, the
  time range and the recommendation texts are left out.
\<close>

record summary =
  totalRoutes :: nat
  activeRoutes :: int
  unusedRouteCount :: nat
  unusedPercentage :: number
  slowEndpoints :: nat
  highErrorRateEndpoints :: nat

record usageReport =
  summary :: summary
  unusedEndpoints :: "unusedEndpoint list"
  topUnusedEndpoints :: "unusedEndpoint list"

definition thresholdOr :: "real option \<Rightarrow> real \<Rightarrow> real" where
  \<comment> \<open>\<^verbatim>\<open>alerts?.threshold || fallback\<close>\<close>
  "thresholdOr x fallback = (case x of None \<Rightarrow> fallback | Some v \<Rightarrow> if v = 0 then fallback else v)"

definition generateReport ::
  "config \<Rightarrow> reportConfig \<Rightarrow> redis \<Rightarrow> discoveredRoutes \<Rightarrow> timeZone \<Rightarrow> int
     \<Rightarrow> usageReport" where
  \<comment> \<open>\<^verbatim>\<open>sort\<close> orders \<^verbatim>\<open>unusedWithDetails\<close> in place, so \<^verbatim>\<open>unusedEndpoints\<close>, the same
      array, is ordered too\<close>
  "generateReport cfg rc st routes tz now =
     (let usageReport = generateUsageReport cfg st routes tz now (daysThreshold rc);
          performanceStats = getPerformanceStats cfg st None None;
          unusedWithDetails =
            map (\<lambda>route.
                   let stats = find (\<lambda>s. statMethod s = routeMethod route
                                          \<and> statPath s = Some (routePath route))
                                 (usageStats usageReport)
                   in \<lparr>routeMethod = routeMethod route,
                       routePath = routePath route,
                       middleware = middleware route,
                       handler = handler route,
                       daysSinceLastUse =
                         (case stats of
                            Some s \<Rightarrow> (now - lastAccessed s) div (1000 * 60 * 60 * 24)
                          | None \<Rightarrow> daysThreshold rc + 1),
                       totalRequests = (case stats of Some s \<Rightarrow> count s | None \<Rightarrow> 0)\<rparr>)
              (unusedRoutes usageReport);
          slowThreshold =
            thresholdOr (map_option slowEndpointThresholdMs (performanceAlerts rc)) 2000;
          errorThreshold =
            thresholdOr (map_option errorRateThreshold (performanceAlerts rc)) (5 / 100);
          slow = filter (\<lambda>stat. orZero (averageResponseTime stat) > slowThreshold) performanceStats;
          highError =
            filter (\<lambda>stat. (case performance stat of None \<Rightarrow> 0 | Some perf \<Rightarrow> errorRate perf)
                             > errorThreshold)
              performanceStats;
          sortedUnused = sort_key (\<lambda>e. - daysSinceLastUse e) unusedWithDetails
      in \<lparr>summary =
            \<lparr>totalRoutes = total usageReport,
             activeRoutes = used usageReport,
             unusedRouteCount = unused usageReport,
             unusedPercentage =
               Math_round (times_number
                 (divide_number (real (unused usageReport)) (real (total usageReport))) 100),
             slowEndpoints = length slow,
             highErrorRateEndpoints = length highError\<rparr>,
          unusedEndpoints = sortedUnused,
          topUnusedEndpoints = take 10 sortedUnused\<rparr>)"

text \<open>
  What a tick does to the outside world, in program order: console lines and HTTP posts. The
  answer of a post comes from \<^verbatim>\<open>net\<close>. A failing read of the store, which would take the
  \<^verbatim>\<open>catch\<close> branch and only log, is not modelled.
\<close>

datatype fetchResult = Ok | NotOk int | NetworkError

datatype payload =
    WebhookBody summary "unusedEndpoint list"
  | SlackMessage usageReport

datatype effect =
    ConsoleLog string
  | ConsoleError string
  | Fetch string payload

definition sendWebhookNotification :: "reportConfig \<Rightarrow> (string \<Rightarrow> fetchResult) \<Rightarrow> usageReport \<Rightarrow> effect list" where
  "sendWebhookNotification rc net report =
     (case webhook (notifications rc) of
        None \<Rightarrow> []
      | Some w \<Rightarrow>
          Fetch (url w) (WebhookBody (summary report) (topUnusedEndpoints report))
          # (if net (url w) = Ok then [] else [ConsoleError ''Webhook notification failed:'']))"

definition sendSlackNotification :: "reportConfig \<Rightarrow> (string \<Rightarrow> fetchResult) \<Rightarrow> usageReport \<Rightarrow> effect list" where
  "sendSlackNotification rc net report =
     (case slack (notifications rc) of
        None \<Rightarrow> []
      | Some s \<Rightarrow>
          Fetch (webhookUrl s) (SlackMessage report)
          # (if net (webhookUrl s) = Ok then [] else [ConsoleError ''Slack notification failed:'']))"

definition sendEmailNotification :: "reportConfig \<Rightarrow> usageReport \<Rightarrow> effect list" where
  "sendEmailNotification rc report =
     [ConsoleLog ''Email notification placeholder - implement with nodemailer'']"

definition sendNotifications :: "reportConfig \<Rightarrow> (string \<Rightarrow> fetchResult) \<Rightarrow> usageReport \<Rightarrow> effect list" where
  "sendNotifications rc net report =
     (if webhook (notifications rc) \<noteq> None then sendWebhookNotification rc net report else [])
     @ (if slack (notifications rc) \<noteq> None then sendSlackNotification rc net report else [])
     @ (if email (notifications rc) \<noteq> None then sendEmailNotification rc report else [])"

definition generateHtmlReport :: "reportConfig \<Rightarrow> int \<Rightarrow> usageReport \<Rightarrow> effect list" where
  "generateHtmlReport rc now report =
     (let path1 = (case htmlReport rc of None \<Rightarrow> None | Some h \<Rightarrow> outputPath h);
          path2 = (if truthyString path1 then jsString path1
                   else ''./endpoint-report-'' @ numberToString now @ ''.html'')
      in [ConsoleLog (''HTML report will be saved to '' @ path2)])"

definition generateAndSendReport ::
  "config \<Rightarrow> reportConfig \<Rightarrow> (string \<Rightarrow> fetchResult) \<Rightarrow> redis \<Rightarrow> discoveredRoutes
     \<Rightarrow> timeZone \<Rightarrow> int \<Rightarrow> effect list" where
  "generateAndSendReport cfg rc net st routes tz now =
     (let report = generateReport cfg rc st routes tz now
      in if length (unusedEndpoints report) = 0
         then [ConsoleLog ''No unused endpoints found, report not sent.'']
         else
           [ConsoleLog (numberToString (int (length (unusedEndpoints report)))
                        @ '' unused endpoints detected.'')]
           @ sendNotifications rc net report
           @ (if (case htmlReport rc of None \<Rightarrow> False | Some h \<Rightarrow> htmlEnabled h)
              then generateHtmlReport rc now report else []))"

section \<open>Predicates used in the proofs\<close>

text \<open>A path without a match of \<^verbatim>\<open>/\/\d+/\<close>, and one without a match of the UUID pattern.\<close>

fun noNumeric :: "string \<Rightarrow> bool" where
  "noNumeric [] = True"
| "noNumeric (c # cs) = (\<not> (c = CHR ''/'' \<and> takeWhile isDigit cs \<noteq> []) \<and> noNumeric cs)"

fun noUuid :: "string \<Rightarrow> bool" where
  "noUuid [] = True"
| "noUuid (c # cs) = (\<not> (c = CHR ''/'' \<and> 36 \<le> length (takeWhile isHexDash cs)) \<and> noUuid cs)"


text \<open>
  The value of one field of one hash; the pair of key and field a command writes; the fields
  that count events; the commands that never lower such a field.
\<close>

definition fieldAt :: "redis \<Rightarrow> string \<Rightarrow> string \<Rightarrow> real option" where
  "fieldAt st key f = hget (hgetall st key) f"

fun touches :: "command \<Rightarrow> string \<Rightarrow> string \<Rightarrow> bool" where
  "touches (HINCRBY k f n) key g = (k = key \<and> f = g)"
| "touches (HINCRBYFLOAT k f x) key g = (k = key \<and> f = g)"
| "touches (HSETNX k f v) key g = (k = key \<and> f = g)"
| "touches (HSET k f v) key g = (k = key \<and> f = g)"
| "touches (EXPIRE k s) key g = False"

definition countField :: "string \<Rightarrow> bool" where
  "countField f =
     (f \<in> set [''count'', ''response_count'', ''total_requests'', ''slow_requests'',
                ''error_requests'', ''memory_count'', ''cpu_count'']
      \<or> startsWith f ''status_'')"

fun counting :: "command \<Rightarrow> bool" where
  "counting (HINCRBY k f n) = (0 \<le> n)"
| "counting (HINCRBYFLOAT k f x) = (\<not> countField f)"
| "counting (HSETNX k f v) = (\<not> countField f)"
| "counting (HSET k f v) = (\<not> countField f)"
| "counting (EXPIRE k s) = True"

text \<open>A pattern in which no character has a special meaning for the glob.\<close>

definition literalPattern :: "string \<Rightarrow> bool" where
  "literalPattern s = list_all (\<lambda>c. c \<notin> set [CHR ''*'', CHR ''?'', CHR ''['', CHR 0x5C]) s"

text \<open>
  The keys of the aggregate records one call writes, and a sequence of calls, each with the
  two readings of the clock it makes.
\<close>

definition aggregateKeys :: "config \<Rightarrow> string \<Rightarrow> usageData \<Rightarrow> string list" where
  "aggregateKeys cfg today u =
     (let e = normalizeEndpoint cfg (httpMethod u) (path u)
      in [keyPrefix cfg @ '':daily:'' @ today @ '':'' @ e, keyPrefix cfg @ '':global:'' @ e]
         @ (if enabled (performanceTracking cfg) then [keyPrefix cfg @ '':performance:'' @ e] else []))"

definition trackAll :: "config \<Rightarrow> (int \<times> string \<times> usageData) list \<Rightarrow> redis \<Rightarrow> redis" where
  "trackAll cfg calls st = fold (\<lambda>(now, today, u). trackUsage cfg now today u) calls st"

text \<open>
  The sum of the throughput buckets a performance record holds, which is what the metric is
  compared with.
\<close>

definition retainedThroughput :: "hash \<Rightarrow> real" where
  "retainedThroughput data = sum_list (map snd (filter (\<lambda>(f, v). startsWith f ''throughput_'') data))"

section \<open>Sample inputs\<close>

text \<open>
  A tracker with performance tracking on, one request, a store that has seen the endpoint
  before, a reporter with every channel configured, and a store with two global records last
  read on day 70 and day 69 of the epoch.
\<close>

definition sampleConfig :: config where
  "sampleConfig =
     \<lparr>keyPrefix = ''endpoint_usage'', trackingEnabled = True, excludePaths = [],
      includeQueryParams = False,
      performanceTracking =
        \<lparr>enabled = True, slowThresholdMs = 1000, percentiles = [50, 95, 99],
         memoryTracking = False, cpuTracking = False\<rparr>\<rparr>"

definition sampleEvent :: usageData where
  "sampleEvent =
     \<lparr>timestamp = 0, httpMethod = ''get'', path = ''/users/42'', statusCode = 200,
      responseTime = Some 100, userAgent = None, ip = None, memoryUsage = None, cpuUsage = None\<rparr>"

definition seenStore :: redis where
  "seenStore =
     \<lparr>hashes = [(''endpoint_usage:global:GET:/users/:id'',
                  [(''count'', 2), (''first_accessed'', 500), (''last_accessed'', 900)])],
      rawLists = [], expiry = []\<rparr>"

definition sampleReportConfig :: reportConfig where
  "sampleReportConfig =
     \<lparr>reportingEnabled = True, intervalHours = 24, daysThreshold = 30,
      performanceAlerts = None,
      notifications =
        \<lparr>webhook = Some \<lparr>url = ''https://hooks.example/usage'', headers = []\<rparr>,
         email = Some \<lparr>sender = ''a@example'', recipients = [''b@example''], subject = ''report''\<rparr>,
         slack = Some \<lparr>webhookUrl = ''https://slack.example/hook'', channel = None\<rparr>\<rparr>,
      htmlReport = Some \<lparr>htmlEnabled = True, outputPath = None\<rparr>\<rparr>"

definition sampleRoute :: routeInfo where
  "sampleRoute = \<lparr>routeMethod = ''GET'', routePath = ''/health'', middleware = [], handler = ''health''\<rparr>"

definition sampleStore :: redis where
  "sampleStore =
     \<lparr>hashes =
        [(''endpoint_usage:global:GET:/health'', [(''count'', 3), (''last_accessed'', 6048000000)]),
         (''endpoint_usage:global:DELETE:/old'', [(''count'', 1), (''last_accessed'', 5961600000)])],
      rawLists = [], expiry = []\<rparr>"

text \<open>
  Two time zones: UTC, and New York between November 2023 and November 2024, where local time
  is five hours behind UTC until 10 March 2024, 07:00 UTC (02:00 local time), and four hours
  behind after. A store with two global records, last read 30 days of 24 hours, and half an
  hour less, before 15 March 2024, 12:00 UTC.
\<close>

definition utcZone :: timeZone where
  "utcZone = \<lparr>utcOffset = (\<lambda>t. 0), localOffset = (\<lambda>t. 0)\<rparr>"

definition newYork :: timeZone where
  "newYork =
     \<lparr>utcOffset = (\<lambda>t. if t < 1710054000000 then - 18000000 else - 14400000),
      localOffset = (\<lambda>t. if t < 1710036000000 then - 18000000 else - 14400000)\<rparr>"

definition winterStore :: redis where
  "winterStore =
     \<lparr>hashes =
        [(''endpoint_usage:global:GET:/a'', [(''count'', 2), (''last_accessed'', 1707912000000)]),
         (''endpoint_usage:global:GET:/b'', [(''count'', 1), (''last_accessed'', 1707913800000)])],
      rawLists = [], expiry = []\<rparr>"

text \<open>Three requests to one endpoint, with response times of 100, 200 and 300.\<close>

definition threeCalls :: "(int \<times> string \<times> usageData) list" where
  "threeCalls =
     [(1000, ''1970-01-01'', sampleEvent\<lparr>path := ''/users/1'', responseTime := Some 100\<rparr>),
      (2000, ''1970-01-01'', sampleEvent\<lparr>path := ''/users/1'', responseTime := Some 200\<rparr>),
      (3000, ''1970-01-01'', sampleEvent\<lparr>path := ''/users/1'', responseTime := Some 300\<rparr>)]"

section \<open>Normalisation is idempotent\<close>

lemma upperChar_idem: "upperChar (upperChar c) = upperChar c"
  by (simp add: upperChar_def)

lemma toUpperCase_idem: "toUpperCase (toUpperCase s) = toUpperCase s"
  by (simp add: toUpperCase_def upperChar_idem)

lemma noNumeric_fix: "noNumeric s \<Longrightarrow> replaceNumeric s = s"
  by (induction s) auto

lemma noUuid_fix: "noUuid s \<Longrightarrow> replaceUuid s = s"
  by (induction s) auto

lemma digits_replaceNumeric: "takeWhile isDigit (replaceNumeric s) = takeWhile isDigit s"
  by (induction s rule: replaceNumeric.induct) (auto simp: isDigit_def)

lemma digits_replaceUuid: "takeWhile isDigit (replaceUuid s) = takeWhile isDigit s"
  by (induction s rule: replaceUuid.induct) (auto simp: isDigit_def)

lemma hex_replaceUuid: "takeWhile isHexDash (replaceUuid s) = takeWhile isHexDash s"
  by (induction s rule: replaceUuid.induct) (auto simp: isHexDash_def)

lemma noNumeric_replaceNumeric: "noNumeric (replaceNumeric s)"
  by (induction s rule: replaceNumeric.induct) (auto simp: digits_replaceNumeric isDigit_def)

lemma noNumeric_drop: "noNumeric s \<Longrightarrow> noNumeric (drop n s)"
  by (induction s arbitrary: n) (auto simp: drop_Cons split: nat.splits)

lemma noNumeric_replaceUuid: "noNumeric s \<Longrightarrow> noNumeric (replaceUuid s)"
  by (induction s rule: replaceUuid.induct) (auto simp: digits_replaceUuid isDigit_def noNumeric_drop)

lemma noUuid_replaceUuid: "noUuid (replaceUuid s)"
  by (induction s rule: replaceUuid.induct) (auto simp: hex_replaceUuid isHexDash_def)

lemma query_replaceNumeric: "CHR ''?'' \<notin> set s \<Longrightarrow> CHR ''?'' \<notin> set (replaceNumeric s)"
  by (induction s rule: replaceNumeric.induct) (auto dest: set_dropWhileD)

lemma query_replaceUuid: "CHR ''?'' \<notin> set s \<Longrightarrow> CHR ''?'' \<notin> set (replaceUuid s)"
  by (induction s rule: replaceUuid.induct) (auto dest: in_set_dropD)

lemma takeWhile_query_free: "CHR ''?'' \<notin> set s \<Longrightarrow> takeWhile (\<lambda>c. c \<noteq> CHR ''?'') s = s"
  by (induction s) auto

lemma normalizedPath_idem: "normalizedPath cfg (normalizedPath cfg p) = normalizedPath cfg p"
proof -
  define q where "q = (if \<not> includeQueryParams cfg then takeWhile (\<lambda>c. c \<noteq> CHR ''?'') p else p)"
  have np: "normalizedPath cfg p = replaceUuid (replaceNumeric q)"
    by (simp add: normalizedPath_def q_def)
  have nq: "\<not> includeQueryParams cfg \<Longrightarrow> CHR ''?'' \<notin> set q"
    by (auto simp: q_def dest: set_takeWhileD)
  have a: "(if \<not> includeQueryParams cfg
            then takeWhile (\<lambda>c. c \<noteq> CHR ''?'') (replaceUuid (replaceNumeric q))
            else replaceUuid (replaceNumeric q)) = replaceUuid (replaceNumeric q)"
    using nq by (simp add: takeWhile_query_free query_replaceNumeric query_replaceUuid)
  have b: "replaceNumeric (replaceUuid (replaceNumeric q)) = replaceUuid (replaceNumeric q)"
    by (simp add: noNumeric_fix noNumeric_replaceUuid noNumeric_replaceNumeric)
  have c: "replaceUuid (replaceUuid (replaceNumeric q)) = replaceUuid (replaceNumeric q)"
    by (simp add: noUuid_fix noUuid_replaceUuid)
  show ?thesis
    unfolding np unfolding normalizedPath_def Let_def a b c ..
qed


text \<open>
  C9: normalising the verb and the path that a normalisation produced gives the same
  endpoint key again.
\<close>

theorem normalizeEndpoint_idempotent:
  "normalizeEndpoint cfg (toUpperCase m) (normalizedPath cfg p) = normalizeEndpoint cfg m p"
  by (simp add: normalizeEndpoint_def toUpperCase_idem normalizedPath_idem)

section \<open>Percentiles\<close>

lemma percentile_index_range:
  assumes "p = 50 \<or> p = 95 \<or> p = 99" and "0 < n"
  shows "1 \<le> \<lceil>(p / 100) * real n\<rceil>" and "\<lceil>(p / 100) * real n\<rceil> \<le> int n"
proof -
  have pos: "0 < (p / 100) * real n" using assms by auto
  then show "1 \<le> \<lceil>(p / 100) * real n\<rceil>" by (simp add: ceiling_le_iff less_ceiling_iff flip: zless_iff_Suc_zadd)
  have "(p / 100) * real n \<le> real n" using assms by auto
  then show "\<lceil>(p / 100) * real n\<rceil> \<le> int n" by (simp add: ceiling_le_iff)
qed

lemma calculatePercentile_nonempty:
  assumes "p = 50 \<or> p = 95 \<or> p = 99" and "vs \<noteq> []"
  shows "calculatePercentile vs p =
           Some (sort vs ! nat (min (int (length vs) - 1) (max 0 (\<lceil>(p / 100) * real (length vs)\<rceil> - 1))))"
proof -
  have n: "0 < length vs" using assms by simp
  note r = percentile_index_range[OF assms(1) n]
  define idx where "idx = \<lceil>(p / 100) * real (length vs)\<rceil> - 1"
  have i: "0 \<le> idx" "idx \<le> int (length vs) - 1"
    using r by (simp_all add: idx_def)
  then have m: "max 0 idx = idx" "min (int (length vs) - 1) idx = idx"
    by simp_all
  have "calculatePercentile vs p = jsIndex (sort vs) (max 0 idx)"
    using assms(2) by (simp add: calculatePercentile_def Let_def idx_def)
  also have "\<dots> = Some (sort vs ! nat idx)"
    using i by (simp add: jsIndex_def m)
  finally show ?thesis
    using m by (simp add: idx_def)
qed


text \<open>
  C5: for the percentiles 50, 95 and 99 of a non-empty list of samples, the result is the
  element of the ascending samples at index \<open>\<lceil>p / 100 * n\<rceil> - 1\<close>, clamped to \<open>[0, n - 1]\<close>; no
  samples give 0, and a single sample gives that sample.
\<close>

theorem calculatePercentile_index:
  assumes "p = 50 \<or> p = 95 \<or> p = 99" and "vs \<noteq> []"
  shows "calculatePercentile vs p =
           Some (sort vs ! nat (min (int (length vs) - 1) (max 0 (\<lceil>(p / 100) * real (length vs)\<rceil> - 1))))
         \<and> calculatePercentile [] p = Some 0
         \<and> calculatePercentile [x] p = Some x"
proof -
  have b: "calculatePercentile [] p = Some 0"
    by (simp add: calculatePercentile_def)
  have "min (int (length [x]) - 1) (max 0 (\<lceil>(p / 100) * real (length [x])\<rceil> - 1)) = 0"
    by (simp add: min_def max_def)
  then have c: "calculatePercentile [x] p = Some x"
    using calculatePercentile_nonempty[OF assms(1), of "[x]"] by simp
  show ?thesis using calculatePercentile_nonempty[OF assms] b c by simp
qed

theorem calculatePercentile_index_witness:
  "calculatePercentile [300, 100, 200] 50 = Some 200
   \<and> calculatePercentile [] 50 = Some 0
   \<and> calculatePercentile [7] 50 = Some 7"
  using calculatePercentile_index[of 50 "[300, 100, 200]" 7] by simp

section \<open>The store: what each command and each pipeline changes\<close>

lemma hgetall_putHash: "hgetall (putHash key h st) k = (if k = key then h else hgetall st k)"
  by (simp add: hgetall_def putHash_def update_conv' delete_conv')

lemma lrange_putHash: "lrange (putHash key h st) k = lrange st k"
  by (simp add: lrange_def putHash_def)

lemma hgetall_expiry: "hgetall (st\<lparr>expiry := e\<rparr>) k = hgetall st k"
  by (simp add: hgetall_def)

lemma hget_hset: "hget (hset f v h) g = (if g = f then Some v else hget h g)"
  by (simp add: hget_def hset_def update_conv')

lemma hget_hsetnx:
  "hget (hsetnx f v h) g = (if g = f then Some (case hget h f of None \<Rightarrow> v | Some w \<Rightarrow> w) else hget h g)"
  by (simp add: hget_def hsetnx_def update_conv' split: option.splits)

lemma hget_hincrby:
  "hget (hincrby f n h) g =
     (if g = f
      then Some (case hget h f of None \<Rightarrow> of_int n | Some v \<Rightarrow> if isInteger v then v + of_int n else v)
      else hget h g)"
  by (simp add: hget_def hincrby_def update_conv' split: option.splits)

lemma hget_hincrbyfloat:
  "hget (hincrbyfloat f x h) g =
     (if g = f then Some (case hget h f of None \<Rightarrow> x | Some v \<Rightarrow> v + x) else hget h g)"
  by (simp add: hget_def hincrbyfloat_def update_conv' split: option.splits)

lemma hget_filter:
  "hget (filter (\<lambda>(f, v). f \<notin> set fs) h) g = (if g \<in> set fs then None else hget h g)"
  unfolding hget_def by (induction h) auto

lemma fieldAt_execCommand:
  "fieldAt (execCommand c st) key g =
     (if touches c key g
      then (case c of
              HINCRBY k f n \<Rightarrow>
                Some (case fieldAt st key g of None \<Rightarrow> of_int n
                      | Some v \<Rightarrow> if isInteger v then v + of_int n else v)
            | HINCRBYFLOAT k f x \<Rightarrow> Some (case fieldAt st key g of None \<Rightarrow> x | Some v \<Rightarrow> v + x)
            | HSETNX k f v \<Rightarrow> Some (case fieldAt st key g of None \<Rightarrow> v | Some w \<Rightarrow> w)
            | HSET k f v \<Rightarrow> Some v
            | EXPIRE k s \<Rightarrow> fieldAt st key g)
      else fieldAt st key g)"
  by (cases c)
     (auto simp: fieldAt_def hgetall_putHash hgetall_expiry hget_hset hget_hsetnx hget_hincrby
                 hget_hincrbyfloat)

lemma exec_Nil: "exec [] st = st"
  by (simp add: exec_def)

lemma exec_Cons: "exec (c # p) st = exec p (execCommand c st)"
  by (simp add: exec_def)

lemma exec_append: "exec (p @ q) st = exec q (exec p st)"
  by (simp add: exec_def)

lemma exec_frame:
  "list_all (\<lambda>c. \<not> touches c key g) p \<Longrightarrow> fieldAt (exec p st) key g = fieldAt st key g"
  by (induction p arbitrary: st) (simp_all add: exec_Nil exec_Cons fieldAt_execCommand)

lemma counting_step:
  assumes "counting c" and "countField g"
  shows "orZero (fieldAt st key g) \<le> orZero (fieldAt (execCommand c st) key g)"
  using assms
  by (cases c) (auto simp: fieldAt_execCommand orZero_def simp del: execCommand.simps split: option.splits)

lemma counting_exec:
  "list_all counting p \<Longrightarrow> countField g \<Longrightarrow>
   orZero (fieldAt st key g) \<le> orZero (fieldAt (exec p st) key g)"
proof (induction p arbitrary: st)
  case Nil
  then show ?case by (simp add: exec_Nil)
next
  case (Cons c p)
  have "orZero (fieldAt st key g) \<le> orZero (fieldAt (execCommand c st) key g)"
    using Cons.prems by (simp add: counting_step)
  also have "\<dots> \<le> orZero (fieldAt (exec p (execCommand c st)) key g)"
    using Cons.prems by (intro Cons.IH) simp_all
  finally show ?case by (simp add: exec_Cons)
qed

lemma startsWith_append: "startsWith s p \<Longrightarrow> s = p @ drop (length p) s"
  unfolding startsWith_def by (metis append_take_drop_id)

lemma countField_not_bucket: "countField g \<Longrightarrow> \<not> startsWith g ''throughput_''"
proof
  assume c: "countField g" and "startsWith g ''throughput_''"
  then obtain r where "g = ''throughput_'' @ r"
    using startsWith_append by blast
  with c show False by (simp add: countField_def startsWith_def)
qed

lemma fieldAt_lpush: "fieldAt (lpush k d st) key g = fieldAt st key g"
  by (simp add: fieldAt_def lpush_def hgetall_def)

lemma fieldAt_hdel: "g \<notin> set fs \<Longrightarrow> fieldAt (hdel k fs st) key g = fieldAt st key g"
  by (simp add: hdel_def fieldAt_def hgetall_putHash hget_filter)

lemma fieldAt_cleanup:
  assumes "\<not> startsWith g ''throughput_''"
  shows "fieldAt (cleanupOldThroughputData k t st) key g = fieldAt st key g"
proof -
  define fs where "fs =
    filter (\<lambda>key. case parseIntString (removeFirst ''throughput_'' key) of
                     None \<Rightarrow> False | Some t' \<Rightarrow> t' < t - (60 * 60 * 1000))
      (filter (\<lambda>key. startsWith key ''throughput_'') (map fst (hgetall st k)))"
  have "g \<notin> set fs"
    using assms by (auto simp: fs_def)
  then have "fieldAt (hdel k fs st) key g = fieldAt st key g"
    by (rule fieldAt_hdel)
  then show ?thesis
    unfolding cleanupOldThroughputData_def Let_def fs_def by simp
qed

lemma counting_daily:
  "list_all counting
     ([HINCRBY k ''count'' 1, HINCRBY k (''status_'' @ sc) 1, HSETNX k ''first_accessed'' t,
       HSET k ''last_accessed'' t]
      @ whenTruthy rt (\<lambda>rt. [HINCRBYFLOAT k ''total_response_time'' rt, HINCRBY k ''response_count'' 1])
      @ [EXPIRE k e])"
  by (simp add: whenTruthy_def countField_def startsWith_def split: option.splits)

lemma updateDailyStats_counting:
  "countField g \<Longrightarrow>
   orZero (fieldAt st key g) \<le> orZero (fieldAt (updateDailyStats cfg today e d st) key g)"
  unfolding updateDailyStats_def Let_def by (rule counting_exec[OF counting_daily])

lemma counting_global:
  "list_all counting
     ([HINCRBY k ''count'' 1, HSETNX k ''first_accessed'' t, HSET k ''last_accessed'' t,
       HINCRBY k (''status_'' @ sc) 1]
      @ whenTruthy rt (\<lambda>rt. [HINCRBYFLOAT k ''total_response_time'' rt, HINCRBY k ''response_count'' 1]))"
  by (simp add: whenTruthy_def countField_def startsWith_def split: option.splits)

lemma updateCounters_counting:
  "countField g \<Longrightarrow>
   orZero (fieldAt st key g) \<le> orZero (fieldAt (updateCounters cfg e d st) key g)"
  unfolding updateCounters_def Let_def by (rule counting_exec[OF counting_global])

lemma counting_performance:
  "list_all counting
     ([HINCRBY k ''total_requests'' 1, HSETNX k ''first_accessed'' t, HSET k ''last_accessed'' t]
      @ whenTruthy rt (\<lambda>rt.
          [HINCRBYFLOAT k ''total_response_time'' rt, HINCRBY k ''response_count'' 1]
          @ (if rt > slow then [HINCRBY k ''slow_requests'' 1] else []))
      @ (if b then [HINCRBY k ''error_requests'' 1] else [])
      @ whenTruthy mem (\<lambda>m. [HINCRBYFLOAT k ''total_memory'' m, HINCRBY k ''memory_count'' 1])
      @ whenTruthy cpu (\<lambda>c. [HINCRBYFLOAT k ''total_cpu'' c, HINCRBY k ''cpu_count'' 1])
      @ [HINCRBY k (''throughput_'' @ mk) 1, EXPIRE k e])"
  by (simp add: whenTruthy_def countField_def startsWith_def split: option.splits)

lemma updatePerformanceStats_counting:
  assumes "countField g"
  shows "orZero (fieldAt st key g) \<le> orZero (fieldAt (updatePerformanceStats cfg e d st) key g)"
proof (cases "enabled (performanceTracking cfg)")
  case False
  then show ?thesis by (simp add: updatePerformanceStats_def)
next
  case True
  then show ?thesis
    unfolding updatePerformanceStats_def Let_def
    by (simp only: not_True_eq_False if_False fieldAt_cleanup[OF countField_not_bucket[OF assms]])
       (rule counting_exec[OF counting_performance assms])
qed

lemma trackUsage_counting:
  assumes "countField g"
  shows "orZero (fieldAt st key g) \<le> orZero (fieldAt (trackUsage cfg now today u st) key g)"
proof (cases "shouldTrackPath cfg (path u)")
  case False
  then show ?thesis by (simp add: trackUsage_def)
next
  case True
  define e where "e = normalizeEndpoint cfg (httpMethod u) (path u)"
  define d where "d = u\<lparr>timestamp := now\<rparr>"
  define s2 where "s2 = exec [EXPIRE (keyPrefix cfg @ '':raw:'' @ e) (30 * 24 * 60 * 60)]
                          (lpush (keyPrefix cfg @ '':raw:'' @ e) d st)"
  have t: "trackUsage cfg now today u st =
             updatePerformanceStats cfg e d (updateCounters cfg e d (updateDailyStats cfg today e d s2))"
    using True by (simp add: trackUsage_def Let_def e_def d_def s2_def)
  have "fieldAt s2 key g = fieldAt st key g"
    by (simp add: s2_def exec_frame fieldAt_lpush)
  then have "orZero (fieldAt st key g) \<le> orZero (fieldAt (updateDailyStats cfg today e d s2) key g)"
    using updateDailyStats_counting[OF assms, of s2 key cfg today e d] by simp
  also have "\<dots> \<le> orZero (fieldAt (updateCounters cfg e d (updateDailyStats cfg today e d s2)) key g)"
    by (rule updateCounters_counting[OF assms])
  also have "\<dots> \<le> orZero (fieldAt (trackUsage cfg now today u st) key g)"
    unfolding t by (rule updatePerformanceStats_counting[OF assms])
  finally show ?thesis .
qed


lemma updateCounters_last:
  "fieldAt (updateCounters cfg e d st) key ''last_accessed'' =
     (if key = keyPrefix cfg @ '':global:'' @ e then Some (of_int (timestamp d))
      else fieldAt st key ''last_accessed'')"
  by (simp add: updateCounters_def Let_def exec_def whenTruthy_def fieldAt_execCommand
           del: execCommand.simps split: option.splits)

lemma updateCounters_first:
  "fieldAt (updateCounters cfg e d st) key ''first_accessed'' =
     (if key = keyPrefix cfg @ '':global:'' @ e
      then Some (case fieldAt st key ''first_accessed'' of None \<Rightarrow> of_int (timestamp d) | Some w \<Rightarrow> w)
      else fieldAt st key ''first_accessed'')"
  by (simp add: updateCounters_def Let_def exec_def whenTruthy_def fieldAt_execCommand
           del: execCommand.simps split: option.splits)

lemma updateDailyStats_last:
  "fieldAt (updateDailyStats cfg today e d st) key ''last_accessed'' =
     (if key = keyPrefix cfg @ '':daily:'' @ today @ '':'' @ e then Some (of_int (timestamp d))
      else fieldAt st key ''last_accessed'')"
  by (simp add: updateDailyStats_def Let_def exec_def whenTruthy_def fieldAt_execCommand
           del: execCommand.simps split: option.splits)

lemma updateDailyStats_first:
  "fieldAt (updateDailyStats cfg today e d st) key ''first_accessed'' =
     (if key = keyPrefix cfg @ '':daily:'' @ today @ '':'' @ e
      then Some (case fieldAt st key ''first_accessed'' of None \<Rightarrow> of_int (timestamp d) | Some w \<Rightarrow> w)
      else fieldAt st key ''first_accessed'')"
  by (simp add: updateDailyStats_def Let_def exec_def whenTruthy_def fieldAt_execCommand
           del: execCommand.simps split: option.splits)

lemma updatePerformanceStats_last:
  "fieldAt (updatePerformanceStats cfg e d st) key ''last_accessed'' =
     (if enabled (performanceTracking cfg) \<and> key = keyPrefix cfg @ '':performance:'' @ e
      then Some (of_int (timestamp d))
      else fieldAt st key ''last_accessed'')"
  by (simp add: updatePerformanceStats_def Let_def exec_def whenTruthy_def fieldAt_execCommand
           fieldAt_cleanup startsWith_def
           del: execCommand.simps split: option.splits)

lemma updatePerformanceStats_first:
  "fieldAt (updatePerformanceStats cfg e d st) key ''first_accessed'' =
     (if enabled (performanceTracking cfg) \<and> key = keyPrefix cfg @ '':performance:'' @ e
      then Some (case fieldAt st key ''first_accessed'' of None \<Rightarrow> of_int (timestamp d) | Some w \<Rightarrow> w)
      else fieldAt st key ''first_accessed'')"
  by (simp add: updatePerformanceStats_def Let_def exec_def whenTruthy_def fieldAt_execCommand
           fieldAt_cleanup startsWith_def
           del: execCommand.simps split: option.splits)


lemma trackUsage_unfold:
  assumes "shouldTrackPath cfg (path u)"
  shows "trackUsage cfg now today u st =
     updatePerformanceStats cfg (normalizeEndpoint cfg (httpMethod u) (path u)) (u\<lparr>timestamp := now\<rparr>)
       (updateCounters cfg (normalizeEndpoint cfg (httpMethod u) (path u)) (u\<lparr>timestamp := now\<rparr>)
         (updateDailyStats cfg today (normalizeEndpoint cfg (httpMethod u) (path u)) (u\<lparr>timestamp := now\<rparr>)
           (exec [EXPIRE (keyPrefix cfg @ '':raw:'' @ normalizeEndpoint cfg (httpMethod u) (path u))
                    (30 * 24 * 60 * 60)]
              (lpush (keyPrefix cfg @ '':raw:'' @ normalizeEndpoint cfg (httpMethod u) (path u))
                 (u\<lparr>timestamp := now\<rparr>) st))))"
  using assms by (simp add: trackUsage_def Let_def)

lemma fieldAt_raw_step: "fieldAt (exec [EXPIRE r s] (lpush r d st)) key g = fieldAt st key g"
  by (simp add: exec_frame fieldAt_lpush)

lemma trackUsage_last:
  "fieldAt (trackUsage cfg now today u st) key ''last_accessed'' =
     (if shouldTrackPath cfg (path u) \<and> key \<in> set (aggregateKeys cfg today u)
      then Some (of_int now)
      else fieldAt st key ''last_accessed'')"
proof (cases "shouldTrackPath cfg (path u)")
  case False
  then show ?thesis by (simp add: trackUsage_def)
next
  case True
  show ?thesis
    unfolding trackUsage_unfold[OF True]
    by (simp add: True updatePerformanceStats_last updateCounters_last updateDailyStats_last
          fieldAt_raw_step aggregateKeys_def Let_def)
qed

lemma trackUsage_first:
  "fieldAt (trackUsage cfg now today u st) key ''first_accessed'' =
     (if shouldTrackPath cfg (path u) \<and> key \<in> set (aggregateKeys cfg today u)
      then Some (case fieldAt st key ''first_accessed'' of None \<Rightarrow> of_int now | Some w \<Rightarrow> w)
      else fieldAt st key ''first_accessed'')"
proof (cases "shouldTrackPath cfg (path u)")
  case False
  then show ?thesis by (simp add: trackUsage_def)
next
  case True
  show ?thesis
    unfolding trackUsage_unfold[OF True]
    by (simp add: True updatePerformanceStats_first updateCounters_first updateDailyStats_first
          fieldAt_raw_step aggregateKeys_def Let_def split: option.splits)
qed

lemma trackAll_Nil: "trackAll cfg [] st = st"
  by (simp add: trackAll_def)

lemma trackAll_Cons:
  "trackAll cfg ((now, today, u) # calls) st = trackAll cfg calls (trackUsage cfg now today u st)"
  by (simp add: trackAll_def)

lemma trackAll_counting:
  "countField g \<Longrightarrow> orZero (fieldAt st key g) \<le> orZero (fieldAt (trackAll cfg calls st) key g)"
proof (induction calls arbitrary: st)
  case Nil
  then show ?case by (simp add: trackAll_Nil)
next
  case (Cons call calls)
  obtain now today u where call: "call = (now, today, u)"
    by (cases call) auto
  have "orZero (fieldAt st key g) \<le> orZero (fieldAt (trackUsage cfg now today u st) key g)"
    by (rule trackUsage_counting[OF Cons.prems])
  also have "\<dots> \<le> orZero (fieldAt (trackAll cfg calls (trackUsage cfg now today u st)) key g)"
    by (rule Cons.IH[OF Cons.prems])
  finally show ?case by (simp add: call trackAll_Cons)
qed

lemma trackAll_first:
  "fieldAt st key ''first_accessed'' = Some v \<Longrightarrow>
   fieldAt (trackAll cfg calls st) key ''first_accessed'' = Some v"
proof (induction calls arbitrary: st)
  case Nil
  then show ?case by (simp add: trackAll_Nil)
next
  case (Cons call calls)
  obtain now today u where call: "call = (now, today, u)"
    by (cases call) auto
  have "fieldAt (trackUsage cfg now today u st) key ''first_accessed'' = Some v"
    using Cons.prems by (simp add: trackUsage_first)
  then show ?case
    using Cons.IH by (simp add: call trackAll_Cons)
qed


lemma whenTruthy_falsy: "orZero x = 0 \<Longrightarrow> whenTruthy x f = []"
  by (simp add: whenTruthy_def orZero_def split: option.splits)

lemma list_all_whenTruthy: "\<forall>v. list_all P (f v) \<Longrightarrow> list_all P (whenTruthy x f)"
  by (simp add: whenTruthy_def split: option.splits)

lemma updateDailyStats_no_sample:
  assumes "orZero (responseTime d) = 0"
  shows "fieldAt (updateDailyStats cfg today e d st) key ''total_response_time'' =
           fieldAt st key ''total_response_time''"
    and "fieldAt (updateDailyStats cfg today e d st) key ''response_count'' =
           fieldAt st key ''response_count''"
    and "fieldAt (updateDailyStats cfg today e d st) key ''slow_requests'' =
           fieldAt st key ''slow_requests''"
  by (simp_all add: updateDailyStats_def Let_def exec_frame whenTruthy_falsy[OF assms])

lemma updateCounters_no_sample:
  assumes "orZero (responseTime d) = 0"
  shows "fieldAt (updateCounters cfg e d st) key ''total_response_time'' =
           fieldAt st key ''total_response_time''"
    and "fieldAt (updateCounters cfg e d st) key ''response_count'' =
           fieldAt st key ''response_count''"
    and "fieldAt (updateCounters cfg e d st) key ''slow_requests'' =
           fieldAt st key ''slow_requests''"
  by (simp_all add: updateCounters_def Let_def exec_frame whenTruthy_falsy[OF assms])

lemma updatePerformanceStats_no_sample:
  assumes "orZero (responseTime d) = 0"
  shows "fieldAt (updatePerformanceStats cfg e d st) key ''total_response_time'' =
           fieldAt st key ''total_response_time''"
    and "fieldAt (updatePerformanceStats cfg e d st) key ''response_count'' =
           fieldAt st key ''response_count''"
    and "fieldAt (updatePerformanceStats cfg e d st) key ''slow_requests'' =
           fieldAt st key ''slow_requests''"
  by (simp_all add: updatePerformanceStats_def Let_def fieldAt_cleanup startsWith_def exec_frame
        whenTruthy_falsy[OF assms] list_all_whenTruthy)

lemma updatePerformanceStats_no_memory:
  assumes "orZero (memoryUsage d) = 0"
  shows "fieldAt (updatePerformanceStats cfg e d st) key ''total_memory'' = fieldAt st key ''total_memory''"
    and "fieldAt (updatePerformanceStats cfg e d st) key ''memory_count'' = fieldAt st key ''memory_count''"
  by (simp_all add: updatePerformanceStats_def Let_def fieldAt_cleanup startsWith_def exec_frame
        whenTruthy_falsy[OF assms] list_all_whenTruthy)

lemma updatePerformanceStats_no_cpu:
  assumes "orZero (cpuUsage d) = 0"
  shows "fieldAt (updatePerformanceStats cfg e d st) key ''total_cpu'' = fieldAt st key ''total_cpu''"
    and "fieldAt (updatePerformanceStats cfg e d st) key ''cpu_count'' = fieldAt st key ''cpu_count''"
  by (simp_all add: updatePerformanceStats_def Let_def fieldAt_cleanup startsWith_def exec_frame
        whenTruthy_falsy[OF assms] list_all_whenTruthy)

lemma resource_fields_elsewhere:
  "fieldAt (updateDailyStats cfg today e d st) key ''total_memory'' = fieldAt st key ''total_memory''"
  "fieldAt (updateDailyStats cfg today e d st) key ''memory_count'' = fieldAt st key ''memory_count''"
  "fieldAt (updateDailyStats cfg today e d st) key ''total_cpu'' = fieldAt st key ''total_cpu''"
  "fieldAt (updateDailyStats cfg today e d st) key ''cpu_count'' = fieldAt st key ''cpu_count''"
  "fieldAt (updateCounters cfg e d st) key ''total_memory'' = fieldAt st key ''total_memory''"
  "fieldAt (updateCounters cfg e d st) key ''memory_count'' = fieldAt st key ''memory_count''"
  "fieldAt (updateCounters cfg e d st) key ''total_cpu'' = fieldAt st key ''total_cpu''"
  "fieldAt (updateCounters cfg e d st) key ''cpu_count'' = fieldAt st key ''cpu_count''"
  by (simp_all add: updateDailyStats_def updateCounters_def Let_def exec_frame list_all_whenTruthy)

lemma trackUsage_no_sample:
  assumes "orZero (responseTime u) = 0"
  shows "fieldAt (trackUsage cfg now today u st) key ''total_response_time'' =
           fieldAt st key ''total_response_time''"
    and "fieldAt (trackUsage cfg now today u st) key ''response_count'' =
           fieldAt st key ''response_count''"
    and "fieldAt (trackUsage cfg now today u st) key ''slow_requests'' =
           fieldAt st key ''slow_requests''"
proof -
  have d: "orZero (responseTime (u\<lparr>timestamp := now\<rparr>)) = 0"
    using assms by simp
  note steps = updatePerformanceStats_no_sample[OF d] updateCounters_no_sample[OF d]
    updateDailyStats_no_sample[OF d] fieldAt_raw_step
  show "fieldAt (trackUsage cfg now today u st) key ''total_response_time'' =
           fieldAt st key ''total_response_time''"
    by (cases "shouldTrackPath cfg (path u)") (simp_all add: trackUsage_unfold steps, simp add: trackUsage_def)
  show "fieldAt (trackUsage cfg now today u st) key ''response_count'' =
           fieldAt st key ''response_count''"
    by (cases "shouldTrackPath cfg (path u)") (simp_all add: trackUsage_unfold steps, simp add: trackUsage_def)
  show "fieldAt (trackUsage cfg now today u st) key ''slow_requests'' =
           fieldAt st key ''slow_requests''"
    by (cases "shouldTrackPath cfg (path u)") (simp_all add: trackUsage_unfold steps, simp add: trackUsage_def)
qed

lemma trackUsage_no_memory:
  assumes "orZero (memoryUsage u) = 0"
  shows "fieldAt (trackUsage cfg now today u st) key ''total_memory'' = fieldAt st key ''total_memory''"
    and "fieldAt (trackUsage cfg now today u st) key ''memory_count'' = fieldAt st key ''memory_count''"
proof -
  have d: "orZero (memoryUsage (u\<lparr>timestamp := now\<rparr>)) = 0"
    using assms by simp
  note steps = updatePerformanceStats_no_memory[OF d] resource_fields_elsewhere fieldAt_raw_step
  show "fieldAt (trackUsage cfg now today u st) key ''total_memory'' = fieldAt st key ''total_memory''"
    by (cases "shouldTrackPath cfg (path u)") (simp_all add: trackUsage_unfold steps, simp add: trackUsage_def)
  show "fieldAt (trackUsage cfg now today u st) key ''memory_count'' = fieldAt st key ''memory_count''"
    by (cases "shouldTrackPath cfg (path u)") (simp_all add: trackUsage_unfold steps, simp add: trackUsage_def)
qed

lemma trackUsage_no_cpu:
  assumes "orZero (cpuUsage u) = 0"
  shows "fieldAt (trackUsage cfg now today u st) key ''total_cpu'' = fieldAt st key ''total_cpu''"
    and "fieldAt (trackUsage cfg now today u st) key ''cpu_count'' = fieldAt st key ''cpu_count''"
proof -
  have d: "orZero (cpuUsage (u\<lparr>timestamp := now\<rparr>)) = 0"
    using assms by simp
  note steps = updatePerformanceStats_no_cpu[OF d] resource_fields_elsewhere fieldAt_raw_step
  show "fieldAt (trackUsage cfg now today u st) key ''total_cpu'' = fieldAt st key ''total_cpu''"
    by (cases "shouldTrackPath cfg (path u)") (simp_all add: trackUsage_unfold steps, simp add: trackUsage_def)
  show "fieldAt (trackUsage cfg now today u st) key ''cpu_count'' = fieldAt st key ''cpu_count''"
    by (cases "shouldTrackPath cfg (path u)") (simp_all add: trackUsage_unfold steps, simp add: trackUsage_def)
qed

lemma hashes_execCommand:
  "hashes st = hashes st' \<Longrightarrow> hashes (execCommand c st) = hashes (execCommand c st')"
  by (cases c) (simp_all add: putHash_def hgetall_def)

lemma hashes_exec: "hashes st = hashes st' \<Longrightarrow> hashes (exec p st) = hashes (exec p st')"
proof (induction p arbitrary: st st')
  case Nil
  then show ?case by (simp add: exec_Nil)
next
  case (Cons c p)
  show ?case
    unfolding exec_Cons by (rule Cons.IH[OF hashes_execCommand[OF Cons.prems]])
qed

lemma hashes_cleanup:
  "hashes st = hashes st' \<Longrightarrow>
   hashes (cleanupOldThroughputData k t st) = hashes (cleanupOldThroughputData k t st')"
  by (simp add: cleanupOldThroughputData_def Let_def hdel_def putHash_def hgetall_def)

lemma hashes_updateDailyStats:
  assumes "hashes st = hashes st'" and "statusCode d = statusCode d'" and "timestamp d = timestamp d'"
    and rt: "\<And>f :: real \<Rightarrow> command list. whenTruthy (responseTime d) f = whenTruthy (responseTime d') f"
  shows "hashes (updateDailyStats cfg today e d st) = hashes (updateDailyStats cfg today e d' st')"
  unfolding updateDailyStats_def Let_def assms(2)[symmetric] assms(3)[symmetric] rt[symmetric]
  by (rule hashes_exec[OF assms(1)])

lemma hashes_updateCounters:
  assumes "hashes st = hashes st'" and "statusCode d = statusCode d'" and "timestamp d = timestamp d'"
    and rt: "\<And>f :: real \<Rightarrow> command list. whenTruthy (responseTime d) f = whenTruthy (responseTime d') f"
  shows "hashes (updateCounters cfg e d st) = hashes (updateCounters cfg e d' st')"
  unfolding updateCounters_def Let_def assms(2)[symmetric] assms(3)[symmetric] rt[symmetric]
  by (rule hashes_exec[OF assms(1)])

lemma hashes_updatePerformanceStats:
  assumes "hashes st = hashes st'" and "statusCode d = statusCode d'" and "timestamp d = timestamp d'"
    and rt: "\<And>f :: real \<Rightarrow> command list. whenTruthy (responseTime d) f = whenTruthy (responseTime d') f"
    and mem: "\<And>f :: real \<Rightarrow> command list. whenTruthy (memoryUsage d) f = whenTruthy (memoryUsage d') f"
    and cpu: "\<And>f :: real \<Rightarrow> command list. whenTruthy (cpuUsage d) f = whenTruthy (cpuUsage d') f"
  shows "hashes (updatePerformanceStats cfg e d st) = hashes (updatePerformanceStats cfg e d' st')"
proof (cases "enabled (performanceTracking cfg)")
  case False
  then show ?thesis by (simp add: updatePerformanceStats_def assms(1))
next
  case True
  show ?thesis
    unfolding updatePerformanceStats_def Let_def assms(2)[symmetric] assms(3)[symmetric]
      rt[symmetric] mem[symmetric] cpu[symmetric]
    by (simp only: True not_True_eq_False if_False) (rule hashes_cleanup[OF hashes_exec[OF assms(1)]])
qed

lemma hashes_trackUsage:
  fixes u u' :: usageData
  assumes "path u = path u'" and "httpMethod u = httpMethod u'" and "statusCode u = statusCode u'"
    and rt: "\<And>f :: real \<Rightarrow> command list. whenTruthy (responseTime u) f = whenTruthy (responseTime u') f"
    and mem: "\<And>f :: real \<Rightarrow> command list. whenTruthy (memoryUsage u) f = whenTruthy (memoryUsage u') f"
    and cpu: "\<And>f :: real \<Rightarrow> command list. whenTruthy (cpuUsage u) f = whenTruthy (cpuUsage u') f"
  shows "hashes (trackUsage cfg now today u st) = hashes (trackUsage cfg now today u' st)"
proof (cases "shouldTrackPath cfg (path u)")
  case False
  then show ?thesis using assms(1) by (simp add: trackUsage_def)
next
  case True
  then have True': "shouldTrackPath cfg (path u')" using assms(1) by simp
  have raw: "hashes (exec [EXPIRE r s] (lpush r d st)) = hashes (exec [EXPIRE r s] (lpush r d' st))"
    for r s and d d' :: usageData
    by (rule hashes_exec) (simp add: lpush_def)
  show ?thesis
    unfolding trackUsage_unfold[OF True] trackUsage_unfold[OF True'] assms(1)[symmetric] assms(2)[symmetric]
    by (intro hashes_updatePerformanceStats hashes_updateCounters hashes_updateDailyStats raw)
       (simp_all add: assms(3) rt mem cpu)
qed

section \<open>Counters, first access and last access\<close>

lemma sample_tracked: "shouldTrackPath sampleConfig (path sampleEvent)"
  by (simp add: shouldTrackPath_def sampleConfig_def sampleEvent_def)

lemma sample_endpoint:
  "normalizeEndpoint sampleConfig (httpMethod sampleEvent) (path sampleEvent) = ''GET:/users/:id''"
  by (simp add: normalizeEndpoint_def normalizedPath_def toUpperCase_def upperChar_def isDigit_def
        isHexDash_def sampleConfig_def sampleEvent_def)

lemma sample_keys:
  "aggregateKeys sampleConfig today sampleEvent =
     [''endpoint_usage:daily:'' @ today @ '':GET:/users/:id'',
      ''endpoint_usage:global:GET:/users/:id'',
      ''endpoint_usage:performance:GET:/users/:id'']"
  unfolding aggregateKeys_def Let_def sample_endpoint by (simp add: sampleConfig_def)

text \<open>
  C7, as the code has it: over any sequence of calls and for any key, a counting field never
  decreases and a first access time, once set, stays; one call sets the first access time of
  each aggregate record it writes only where there is none, and sets the last access time of
  each to the time of the call, whatever it was before.
\<close>

theorem trackUsage_aggregates:
  "(countField g \<longrightarrow>
      orZero (fieldAt st key g) \<le> orZero (fieldAt (trackAll cfg calls st) key g))
   \<and> (fieldAt st key ''first_accessed'' = Some v \<longrightarrow>
        fieldAt (trackAll cfg calls st) key ''first_accessed'' = Some v)
   \<and> fieldAt (trackUsage cfg now today u st) key ''first_accessed'' =
        (if shouldTrackPath cfg (path u) \<and> key \<in> set (aggregateKeys cfg today u)
         then Some (case fieldAt st key ''first_accessed'' of None \<Rightarrow> of_int now | Some w \<Rightarrow> w)
         else fieldAt st key ''first_accessed'')
   \<and> fieldAt (trackUsage cfg now today u st) key ''last_accessed'' =
        (if shouldTrackPath cfg (path u) \<and> key \<in> set (aggregateKeys cfg today u)
         then Some (of_int now)
         else fieldAt st key ''last_accessed'')"
  using trackAll_counting[of g st key cfg calls] trackAll_first[of st key v cfg calls]
    trackUsage_first[of cfg now today u st key] trackUsage_last[of cfg now today u st key]
  by blast

theorem trackUsage_aggregates_witness:
  "orZero (fieldAt seenStore ''endpoint_usage:global:GET:/users/:id'' ''count'')
     \<le> orZero (fieldAt (trackAll sampleConfig [(1000, ''1970-01-01'', sampleEvent)] seenStore)
                  ''endpoint_usage:global:GET:/users/:id'' ''count'')
   \<and> fieldAt (trackAll sampleConfig [(1000, ''1970-01-01'', sampleEvent)] seenStore)
        ''endpoint_usage:global:GET:/users/:id'' ''first_accessed'' = Some 500
   \<and> fieldAt (trackUsage sampleConfig 1000 ''1970-01-01'' sampleEvent seenStore)
        ''endpoint_usage:global:GET:/users/:id'' ''first_accessed'' = Some 500
   \<and> fieldAt (trackUsage sampleConfig 1000 ''1970-01-01'' sampleEvent seenStore)
        ''endpoint_usage:global:GET:/users/:id'' ''last_accessed'' = Some 1000"
proof -
  have c: "countField ''count''"
    by (simp add: countField_def)
  have f: "fieldAt seenStore ''endpoint_usage:global:GET:/users/:id'' ''first_accessed'' = Some 500"
    by (simp add: fieldAt_def hgetall_def hget_def seenStore_def)
  have k: "''endpoint_usage:global:GET:/users/:id''
             \<in> set (aggregateKeys sampleConfig ''1970-01-01'' sampleEvent)"
    by (simp add: sample_keys)
  show ?thesis
    using trackUsage_aggregates[of "''count''" seenStore "''endpoint_usage:global:GET:/users/:id''"
        sampleConfig "[(1000, ''1970-01-01'', sampleEvent)]" 500 1000 "''1970-01-01''" sampleEvent]
      c f k sample_tracked
    by simp
qed

text \<open>
  The last access time is not a maximum: a call whose clock reads less than the stored time
  lowers it.
\<close>

theorem lastAccessed_overwritten_counterexample:
  "fieldAt (trackUsage sampleConfig 2000 ''1970-01-01'' sampleEvent emptyRedis)
     ''endpoint_usage:global:GET:/users/:id'' ''last_accessed'' = Some 2000
   \<and> fieldAt (trackUsage sampleConfig 1000 ''1970-01-01'' sampleEvent
                (trackUsage sampleConfig 2000 ''1970-01-01'' sampleEvent emptyRedis))
        ''endpoint_usage:global:GET:/users/:id'' ''last_accessed'' = Some 1000
   \<and> Some (1000 :: real) \<noteq> Some (max 2000 1000)"
  by (simp add: trackUsage_last sample_tracked sample_keys)

section \<open>Samples that are zero\<close>

text \<open>
  C10: a response time of 0 changes neither the response time total, nor the response count,
  nor the slow request count of any record, and leaves every hash as a call without a
  response time does; the same holds for a memory or CPU sample of 0.
\<close>

theorem falsy_samples_not_accumulated:
  "fieldAt (trackUsage cfg now today (u\<lparr>responseTime := Some 0\<rparr>) st) key ''total_response_time''
     = fieldAt st key ''total_response_time''
   \<and> fieldAt (trackUsage cfg now today (u\<lparr>responseTime := Some 0\<rparr>) st) key ''response_count''
     = fieldAt st key ''response_count''
   \<and> fieldAt (trackUsage cfg now today (u\<lparr>responseTime := Some 0\<rparr>) st) key ''slow_requests''
     = fieldAt st key ''slow_requests''
   \<and> hashes (trackUsage cfg now today (u\<lparr>responseTime := Some 0\<rparr>) st)
     = hashes (trackUsage cfg now today (u\<lparr>responseTime := None\<rparr>) st)
   \<and> fieldAt (trackUsage cfg now today (u\<lparr>memoryUsage := Some 0\<rparr>) st) key ''total_memory''
     = fieldAt st key ''total_memory''
   \<and> fieldAt (trackUsage cfg now today (u\<lparr>memoryUsage := Some 0\<rparr>) st) key ''memory_count''
     = fieldAt st key ''memory_count''
   \<and> hashes (trackUsage cfg now today (u\<lparr>memoryUsage := Some 0\<rparr>) st)
     = hashes (trackUsage cfg now today (u\<lparr>memoryUsage := None\<rparr>) st)
   \<and> fieldAt (trackUsage cfg now today (u\<lparr>cpuUsage := Some 0\<rparr>) st) key ''total_cpu''
     = fieldAt st key ''total_cpu''
   \<and> fieldAt (trackUsage cfg now today (u\<lparr>cpuUsage := Some 0\<rparr>) st) key ''cpu_count''
     = fieldAt st key ''cpu_count''
   \<and> hashes (trackUsage cfg now today (u\<lparr>cpuUsage := Some 0\<rparr>) st)
     = hashes (trackUsage cfg now today (u\<lparr>cpuUsage := None\<rparr>) st)"
proof -
  have z: "orZero (Some 0) = 0" by (simp add: orZero_def)
  have w: "whenTruthy (Some 0) f = whenTruthy None f" for f :: "real \<Rightarrow> command list"
    by (simp add: whenTruthy_def)
  have r: "hashes (trackUsage cfg now today (u\<lparr>responseTime := Some 0\<rparr>) st)
           = hashes (trackUsage cfg now today (u\<lparr>responseTime := None\<rparr>) st)"
    by (rule hashes_trackUsage) (simp_all add: w)
  have m: "hashes (trackUsage cfg now today (u\<lparr>memoryUsage := Some 0\<rparr>) st)
           = hashes (trackUsage cfg now today (u\<lparr>memoryUsage := None\<rparr>) st)"
    by (rule hashes_trackUsage) (simp_all add: w)
  have c: "hashes (trackUsage cfg now today (u\<lparr>cpuUsage := Some 0\<rparr>) st)
           = hashes (trackUsage cfg now today (u\<lparr>cpuUsage := None\<rparr>) st)"
    by (rule hashes_trackUsage) (simp_all add: w)
  show ?thesis
    by (simp add: trackUsage_no_sample trackUsage_no_memory trackUsage_no_cpu z r m c)
qed

section \<open>Reading the statistics back\<close>

lemma tracked_store:
  "trackUsage sampleConfig 1000 ''1970-01-01'' sampleEvent emptyRedis =
     \<lparr>hashes =
        [(''endpoint_usage:daily:1970-01-01:GET:/users/:id'',
          [(''count'', 1), (''status_200'', 1), (''first_accessed'', 1000),
           (''last_accessed'', 1000), (''total_response_time'', 100), (''response_count'', 1)]),
         (''endpoint_usage:global:GET:/users/:id'',
          [(''count'', 1), (''first_accessed'', 1000), (''last_accessed'', 1000),
           (''status_200'', 1), (''total_response_time'', 100), (''response_count'', 1)]),
         (''endpoint_usage:performance:GET:/users/:id'',
          [(''total_requests'', 1), (''first_accessed'', 1000), (''last_accessed'', 1000),
           (''total_response_time'', 100), (''response_count'', 1), (''throughput_0'', 1)])],
      rawLists =
        [(''endpoint_usage:raw:GET:/users/:id'',
          [\<lparr>timestamp = 1000, httpMethod = ''get'', path = ''/users/42'', statusCode = 200,
             responseTime = Some 100, userAgent = None, ip = None, memoryUsage = None,
             cpuUsage = None\<rparr>])],
      expiry =
        [(''endpoint_usage:raw:GET:/users/:id'', 2592000),
         (''endpoint_usage:daily:1970-01-01:GET:/users/:id'', 7776000),
         (''endpoint_usage:performance:GET:/users/:id'', 7776000)]\<rparr>"
  by code_simp

lemma tracked_perf:
  "map averageResponseTime
     (getPerformanceStats sampleConfig
        (trackUsage sampleConfig 1000 ''1970-01-01'' sampleEvent emptyRedis) None None) = [Some 0]"
  by code_simp

lemma tracked_throughput:
  "map (\<lambda>s. map_option throughput (performance s))
     (getPerformanceStats sampleConfig
        (trackUsage sampleConfig 1000 ''1970-01-01'' sampleEvent emptyRedis) None None) = [Some 0]"
  by code_simp

lemma tracked_global_none:
  "map averageResponseTime
     (getEndpointStats sampleConfig
        (trackUsage sampleConfig 1000 ''1970-01-01'' (sampleEvent\<lparr>responseTime := None\<rparr>) emptyRedis)
        None None) = [None]"
  by code_simp
lemma tracked_buckets:
  "retainedThroughput
     (hgetall (trackUsage sampleConfig 1000 ''1970-01-01'' sampleEvent emptyRedis)
        ''endpoint_usage:performance:GET:/users/:id'') = 1"
  unfolding tracked_store by (simp add: retainedThroughput_def hgetall_def startsWith_def)

lemma sample_stats:
  "getEndpointStats sampleConfig sampleStore None None =
     [\<lparr>statPath = Some ''/health'', statMethod = ''GET'', count = 3, lastAccessed = 6048000000,
        firstAccessed = 0, averageResponseTime = None, statusCodes = [], performance = None\<rparr>,
      \<lparr>statPath = Some ''/old'', statMethod = ''DELETE'', count = 1, lastAccessed = 5961600000,
        firstAccessed = 0, averageResponseTime = None, statusCodes = [], performance = None\<rparr>]"
  by code_simp

text \<open>
  The three sample requests, recorded on an empty store: the global record counts 3 requests
  and a total of 600 over 3 samples; the performance entry has a median of 200.
\<close>

lemma three_tracked:
  "hgetall (trackAll sampleConfig threeCalls emptyRedis) ''endpoint_usage:global:GET:/users/:id'' =
     [(''count'', 3), (''first_accessed'', 1000), (''last_accessed'', 3000), (''status_200'', 3),
      (''total_response_time'', 600), (''response_count'', 3)]"
  by code_simp

lemma three_keys:
  "redisKeys (trackAll sampleConfig threeCalls emptyRedis) (keyPattern sampleConfig ''global'' None None)
     = [''endpoint_usage:global:GET:/users/:id'']"
  by code_simp

lemma three_stats:
  "getPerformanceStats sampleConfig (trackAll sampleConfig threeCalls emptyRedis) None None =
     [\<lparr>statPath = Some ''/users/'', statMethod = ''GET'', count = 3, lastAccessed = 3000,
        firstAccessed = 1000, averageResponseTime = Some 0, statusCodes = [],
        performance = Some \<lparr>p50ResponseTime = Some 200, p95ResponseTime = Some 300,
          p99ResponseTime = Some 300, slowRequestCount = 0, errorRate = 0, throughput = 0,
          avgMemoryUsage = 0, avgCpuUsage = 0\<rparr>\<rparr>]"
  by code_simp

text \<open>
  C1, as the code has it: \<^verbatim>\<open>getEndpointStats\<close> returns one entry for each global record
  with fields that the pattern matches, and the average response time of an entry is the
  stored total divided by the stored number of samples when that number is positive, and is
  undefined when it is not.
\<close>

theorem getEndpointStats_average:
  "set (getEndpointStats cfg st mo po) =
     (\<lambda>key. globalEntry cfg key (hgetall st key))
       ` {key \<in> set (redisKeys st (keyPattern cfg ''global'' mo po)). hgetall st key \<noteq> []}
   \<and> averageResponseTime (globalEntry cfg key data) =
       (if 0 < parseInt (hgetOr0 data ''response_count'')
        then Some (hgetOr0 data ''total_response_time''
                   / real_of_int (parseInt (hgetOr0 data ''response_count'')))
        else None)"
proof -
  have a: "set (getEndpointStats cfg st mo po) =
     (\<lambda>key. globalEntry cfg key (hgetall st key))
       ` {key \<in> set (redisKeys st (keyPattern cfg ''global'' mo po)). hgetall st key \<noteq> []}"
    by (auto simp: getEndpointStats_def Let_def)
  have b: "averageResponseTime (globalEntry cfg key data) =
       (if 0 < parseInt (hgetOr0 data ''response_count'')
        then Some (hgetOr0 data ''total_response_time''
                   / real_of_int (parseInt (hgetOr0 data ''response_count'')))
        else None)"
    by (simp add: globalEntry_def Let_def)
  show ?thesis by (rule conjI[OF a b])
qed

theorem getEndpointStats_average_witness:
  "set (getEndpointStats sampleConfig (trackAll sampleConfig threeCalls emptyRedis) None None) =
     {globalEntry sampleConfig ''endpoint_usage:global:GET:/users/:id''
        [(''count'', 3), (''first_accessed'', 1000), (''last_accessed'', 3000), (''status_200'', 3),
         (''total_response_time'', 600), (''response_count'', 3)]}
   \<and> averageResponseTime
        (globalEntry sampleConfig ''endpoint_usage:global:GET:/users/:id''
           [(''count'', 3), (''first_accessed'', 1000), (''last_accessed'', 3000), (''status_200'', 3),
            (''total_response_time'', 600), (''response_count'', 3)]) = Some 200"
proof -
  have k: "{key \<in> set (redisKeys (trackAll sampleConfig threeCalls emptyRedis)
                        (keyPattern sampleConfig ''global'' None None)).
            hgetall (trackAll sampleConfig threeCalls emptyRedis) key \<noteq> []}
           = {''endpoint_usage:global:GET:/users/:id''}"
    unfolding three_keys using three_tracked by auto
  show ?thesis
    using getEndpointStats_average[of sampleConfig "trackAll sampleConfig threeCalls emptyRedis"
        None None "''endpoint_usage:global:GET:/users/:id''"
        "[(''count'', 3), (''first_accessed'', 1000), (''last_accessed'', 3000), (''status_200'', 3),
          (''total_response_time'', 600), (''response_count'', 3)]"]
    unfolding k
    by (simp add: three_tracked hgetOr0_def hget_def parseInt_def)
qed

text \<open>
  Where C1 fails: after one request with a response time of 100 the performance record holds
  a total of 100 over 1 sample, and the average \<^verbatim>\<open>getPerformanceStats\<close> returns is 0; after
  one request without a response time the average \<^verbatim>\<open>getEndpointStats\<close> returns is
  undefined, not 0.
\<close>

theorem averageResponseTime_counterexample:
  "map averageResponseTime
     (getPerformanceStats sampleConfig
        (trackUsage sampleConfig 1000 ''1970-01-01'' sampleEvent emptyRedis) None None) = [Some 0]
   \<and> fieldAt (trackUsage sampleConfig 1000 ''1970-01-01'' sampleEvent emptyRedis)
        ''endpoint_usage:performance:GET:/users/:id'' ''total_response_time'' = Some 100
   \<and> fieldAt (trackUsage sampleConfig 1000 ''1970-01-01'' sampleEvent emptyRedis)
        ''endpoint_usage:performance:GET:/users/:id'' ''response_count'' = Some 1
   \<and> map averageResponseTime
       (getEndpointStats sampleConfig
          (trackUsage sampleConfig 1000 ''1970-01-01'' (sampleEvent\<lparr>responseTime := None\<rparr>) emptyRedis)
          None None) = [None]"
proof -
  have t: "fieldAt (trackUsage sampleConfig 1000 ''1970-01-01'' sampleEvent emptyRedis)
             ''endpoint_usage:performance:GET:/users/:id'' ''total_response_time'' = Some 100"
    unfolding tracked_store by (simp add: fieldAt_def hgetall_def hget_def)
  have c: "fieldAt (trackUsage sampleConfig 1000 ''1970-01-01'' sampleEvent emptyRedis)
             ''endpoint_usage:performance:GET:/users/:id'' ''response_count'' = Some 1"
    unfolding tracked_store by (simp add: fieldAt_def hgetall_def hget_def)
  show ?thesis
    using tracked_perf t c tracked_global_none by simp
qed

text \<open>
  No write of the tracker creates a field named \<^verbatim>\<open>throughput\<close>, so on a store that only
  the tracker has written the metric is 0 for every endpoint.
\<close>

lemma update_throughput_field:
  "fieldAt (updateDailyStats cfg today e d st) key ''throughput'' = fieldAt st key ''throughput''"
  "fieldAt (updateCounters cfg e d st) key ''throughput'' = fieldAt st key ''throughput''"
  "fieldAt (updatePerformanceStats cfg e d st) key ''throughput'' = fieldAt st key ''throughput''"
  by (simp_all add: updateDailyStats_def updateCounters_def updatePerformanceStats_def Let_def
        fieldAt_cleanup startsWith_def exec_frame list_all_whenTruthy)

lemma trackUsage_throughput_field:
  "fieldAt (trackUsage cfg now today u st) key ''throughput'' = fieldAt st key ''throughput''"
  by (cases "shouldTrackPath cfg (path u)")
     (simp_all add: trackUsage_unfold update_throughput_field fieldAt_raw_step, simp add: trackUsage_def)

lemma trackAll_throughput_field:
  "fieldAt (trackAll cfg calls st) key ''throughput'' = fieldAt st key ''throughput''"
proof (induction calls arbitrary: st)
  case Nil
  then show ?case by (simp add: trackAll_Nil)
next
  case (Cons call calls)
  obtain now today u where call: "call = (now, today, u)"
    by (cases call) auto
  show ?case
    by (simp add: call trackAll_Cons Cons.IH trackUsage_throughput_field)
qed

lemma throughput_always_zero:
  assumes "s \<in> set (getPerformanceStats cfg (trackAll cfg calls emptyRedis) mo po)"
  shows "map_option throughput (performance s) = Some 0"
proof -
  obtain key where
    "s = performanceEntry cfg (trackAll cfg calls emptyRedis) key
           (hgetall (trackAll cfg calls emptyRedis) key)"
    using assms by (auto simp: getPerformanceStats_def Let_def)
  moreover have "hget (hgetall (trackAll cfg calls emptyRedis) key) ''throughput'' = None"
    using trackAll_throughput_field[of cfg calls emptyRedis key]
    by (simp add: fieldAt_def hgetall_def hget_def emptyRedis_def)
  ultimately show ?thesis
    by (simp add: performanceEntry_def Let_def hgetOr0_def)
qed

text \<open>
  C2: after one tracked request the performance record holds one throughput bucket, of value
  1, and the throughput \<^verbatim>\<open>getPerformanceStats\<close> returns is 0: it reads a field named
  \<^verbatim>\<open>throughput\<close>, which no write creates.
\<close>

theorem throughput_ignores_buckets:
  "map (\<lambda>s. map_option throughput (performance s))
     (getPerformanceStats sampleConfig
        (trackUsage sampleConfig 1000 ''1970-01-01'' sampleEvent emptyRedis) None None) = [Some 0]
   \<and> retainedThroughput
       (hgetall (trackUsage sampleConfig 1000 ''1970-01-01'' sampleEvent emptyRedis)
          ''endpoint_usage:performance:GET:/users/:id'') = 1"
  using tracked_throughput tracked_buckets by simp

section \<open>Unused endpoints\<close>

lemma winter_stats:
  "getEndpointStats sampleConfig winterStore None None =
     [\<lparr>statPath = Some ''/a'', statMethod = ''GET'', count = 2, lastAccessed = 1707912000000,
        firstAccessed = 0, averageResponseTime = None, statusCodes = [], performance = None\<rparr>,
      \<lparr>statPath = Some ''/b'', statMethod = ''GET'', count = 1, lastAccessed = 1707913800000,
        firstAccessed = 0, averageResponseTime = None, statusCodes = [], performance = None\<rparr>]"
  by code_simp

text \<open>
  C6, as the code has it: the unused endpoints are the statistics last accessed strictly before
  the instant that has the local time of day of the clock, the threshold in calendar days
  earlier. That instant is the clock minus the threshold in days of 24 hours, corrected by the
  change of the offset of local time between the two; an entry last accessed at that very
  instant is left out; one last accessed a day of 24 hours before the threshold in days of 24
  hours is included, unless the offset was a day or more larger then; where the offset is the
  same at both instants, the unused endpoints are the statistics last accessed strictly before
  the clock minus the threshold in days of 24 hours.
\<close>

theorem getUnusedEndpoints_strict:
  "getUnusedEndpoints cfg st tz now d =
     filter (\<lambda>s. lastAccessed s < daysBefore tz now d) (getEndpointStats cfg st None None)
   \<and> daysBefore tz now d =
       now - d * 86400000
       + (utcOffset tz now - localOffset tz (now + utcOffset tz now - d * 86400000))
   \<and> (\<forall>s \<in> set (getEndpointStats cfg st None None).
        (lastAccessed s = daysBefore tz now d \<longrightarrow> s \<notin> set (getUnusedEndpoints cfg st tz now d))
        \<and> (localOffset tz (now + utcOffset tz now - d * 86400000) - utcOffset tz now < 86400000
             \<and> lastAccessed s = now - (d + 1) * 86400000
             \<longrightarrow> s \<in> set (getUnusedEndpoints cfg st tz now d))
        \<and> (localOffset tz (now + utcOffset tz now - d * 86400000) = utcOffset tz now
             \<longrightarrow> (s \<in> set (getUnusedEndpoints cfg st tz now d)) = (lastAccessed s < now - d * 86400000)))"
proof -
  have t: "daysBefore tz now d =
       now - d * 86400000
       + (utcOffset tz now - localOffset tz (now + utcOffset tz now - d * 86400000))"
    by (simp add: daysBefore_def Let_def)
  have f: "getUnusedEndpoints cfg st tz now d =
     filter (\<lambda>s. lastAccessed s < daysBefore tz now d) (getEndpointStats cfg st None None)"
    by (simp add: getUnusedEndpoints_def Let_def)
  have b: "\<forall>s \<in> set (getEndpointStats cfg st None None).
        (lastAccessed s = daysBefore tz now d \<longrightarrow> s \<notin> set (getUnusedEndpoints cfg st tz now d))
        \<and> (localOffset tz (now + utcOffset tz now - d * 86400000) - utcOffset tz now < 86400000
             \<and> lastAccessed s = now - (d + 1) * 86400000
             \<longrightarrow> s \<in> set (getUnusedEndpoints cfg st tz now d))
        \<and> (localOffset tz (now + utcOffset tz now - d * 86400000) = utcOffset tz now
             \<longrightarrow> (s \<in> set (getUnusedEndpoints cfg st tz now d)) = (lastAccessed s < now - d * 86400000))"
    unfolding f t by (auto simp: algebra_simps)
  show ?thesis using f t b by blast
qed

theorem getUnusedEndpoints_strict_witness:
  "getUnusedEndpoints sampleConfig sampleStore utcZone 8640000000 30 =
     [\<lparr>statPath = Some ''/old'', statMethod = ''DELETE'', count = 1, lastAccessed = 5961600000,
        firstAccessed = 0, averageResponseTime = None, statusCodes = [], performance = None\<rparr>]
   \<and> daysBefore utcZone 8640000000 30 = 6048000000
   \<and> \<lparr>statPath = Some ''/health'', statMethod = ''GET'', count = 3, lastAccessed = 6048000000,
      firstAccessed = 0, averageResponseTime = None, statusCodes = [], performance = None\<rparr>
     \<notin> set (getUnusedEndpoints sampleConfig sampleStore utcZone 8640000000 30)
   \<and> \<lparr>statPath = Some ''/old'', statMethod = ''DELETE'', count = 1, lastAccessed = 5961600000,
      firstAccessed = 0, averageResponseTime = None, statusCodes = [], performance = None\<rparr>
     \<in> set (getUnusedEndpoints sampleConfig sampleStore utcZone 8640000000 30)"
  using getUnusedEndpoints_strict[of sampleConfig sampleStore utcZone 8640000000 30]
  unfolding sample_stats by (simp add: utcZone_def)

text \<open>
  Where C6 fails: in New York on 15 March 2024, 12:00 UTC, with a threshold of 30 days, the
  entry last accessed exactly 30 days of 24 hours before and the entry last accessed half an
  hour after that are both returned: the clocks went forward in between, so the instant with
  the same local time 30 calendar days earlier is an hour later.
\<close>

theorem getUnusedEndpoints_daylight_counterexample:
  "getUnusedEndpoints sampleConfig winterStore newYork 1710504000000 30 =
     [\<lparr>statPath = Some ''/a'', statMethod = ''GET'', count = 2, lastAccessed = 1707912000000,
        firstAccessed = 0, averageResponseTime = None, statusCodes = [], performance = None\<rparr>,
      \<lparr>statPath = Some ''/b'', statMethod = ''GET'', count = 1, lastAccessed = 1707913800000,
        firstAccessed = 0, averageResponseTime = None, statusCodes = [], performance = None\<rparr>]
   \<and> (1707912000000 :: int) = 1710504000000 - 30 * 86400000
   \<and> \<not> ((1707913800000 :: int) < 1710504000000 - 30 * 86400000)"
  unfolding getUnusedEndpoints_def Let_def winter_stats
  by (simp add: daysBefore_def newYork_def)

section \<open>The path read back from a key\<close>

lemma removeFirst_starts: "startsWith s pat \<Longrightarrow> removeFirst pat s = drop (length pat) s"
  by (cases s) (auto simp: startsWith_def)

lemma removeFirst_prefix: "removeFirst pat (pat @ r) = r"
  using removeFirst_starts[of "pat @ r" pat] by (simp add: startsWith_def)

lemma split2_joined:
  "sep \<notin> set a \<Longrightarrow> split2 sep (a @ sep # b) = (a, Some (takeWhile (\<lambda>c. c \<noteq> sep) b))"
proof -
  assume "sep \<notin> set a"
  then have n: "\<And>x. x \<in> set a \<Longrightarrow> x \<noteq> sep"
    by auto
  have "takeWhile (\<lambda>c. c \<noteq> sep) (a @ sep # b) = a"
    using takeWhile_append2[of a "\<lambda>c. c \<noteq> sep" "sep # b"] n by simp
  moreover have "dropWhile (\<lambda>c. c \<noteq> sep) (a @ sep # b) = sep # b"
    using dropWhile_append2[of a "\<lambda>c. c \<noteq> sep" "sep # b"] n by simp
  ultimately show ?thesis
    by (simp add: split2_def)
qed

lemma split2_snd_free: "snd (split2 sep s) = Some q \<Longrightarrow> sep \<notin> set q"
  by (auto simp: split2_def split: list.splits dest: set_takeWhileD)

lemma upperChar_colon: "upperChar c = CHR '':'' \<Longrightarrow> c = CHR '':''"
  by (auto simp: upperChar_def split: if_splits)

lemma toUpperCase_colon: "CHR '':'' \<notin> set m \<Longrightarrow> CHR '':'' \<notin> set (toUpperCase m)"
proof
  assume n: "CHR '':'' \<notin> set m" and "CHR '':'' \<in> set (toUpperCase m)"
  then obtain c where c: "c \<in> set m" "upperChar c = CHR '':''"
    by (auto simp: toUpperCase_def)
  then have "c = CHR '':''" by (simp add: upperChar_colon)
  with c n show False by simp
qed

lemma takeWhile_proper: "x \<in> set xs \<Longrightarrow> takeWhile (\<lambda>c. c \<noteq> x) xs \<noteq> xs"
  by (metis set_takeWhileD)

lemma statPath_globalEntry: "statPath (globalEntry cfg key data) = Some q \<Longrightarrow> CHR '':'' \<notin> set q"
  by (simp add: globalEntry_def Let_def split2_snd_free)

lemma statPath_performanceEntry:
  "statPath (performanceEntry cfg st key data) = Some q \<Longrightarrow> CHR '':'' \<notin> set q"
  by (simp add: performanceEntry_def Let_def split2_snd_free)

lemma statPath_getEndpointStats:
  "s \<in> set (getEndpointStats cfg st mo po) \<Longrightarrow> statPath s = Some q \<Longrightarrow> CHR '':'' \<notin> set q"
  by (auto simp: getEndpointStats_def Let_def dest: statPath_globalEntry)

lemma statPath_getPerformanceStats:
  "s \<in> set (getPerformanceStats cfg st mo po) \<Longrightarrow> statPath s = Some q \<Longrightarrow> CHR '':'' \<notin> set q"
  by (auto simp: getPerformanceStats_def Let_def dest: statPath_performanceEntry)

lemma sample_path: "normalizedPath sampleConfig ''/users/42'' = ''/users/:id''"
  by (simp add: normalizedPath_def isDigit_def isHexDash_def sampleConfig_def)

lemma globMatch_star: "globMatch ''*'' s"
  by (induction s) simp_all

lemma globMatch_literal: "literalPattern lit \<Longrightarrow> globMatch (lit @ ''*'') (lit @ r)"
proof (induction lit)
  case Nil
  then show ?case using globMatch_star by simp
next
  case (Cons c lit)
  then show ?case by (simp add: literalPattern_def)
qed

lemma key_listed:
  assumes "hgetall st key \<noteq> []" and "globMatch pat key"
  shows "key \<in> set (redisKeys st pat)"
proof -
  obtain h where "map_of (hashes st) key = Some h"
    using assms(1) by (auto simp: hgetall_def split: option.splits)
  then have "key \<in> fst ` set (hashes st)"
    by (metis map_of_eq_None_iff option.distinct(1))
  then show ?thesis
    using assms by (simp add: redisKeys_def keyExists_def)
qed

lemma global_listed:
  assumes "literalPattern (keyPrefix cfg)" and "hgetall st (keyPrefix cfg @ '':global:'' @ e) \<noteq> []"
  shows "globalEntry cfg (keyPrefix cfg @ '':global:'' @ e) (hgetall st (keyPrefix cfg @ '':global:'' @ e))
           \<in> set (getEndpointStats cfg st None None)"
proof -
  have "literalPattern (keyPrefix cfg @ '':global:'')"
    using assms(1) by (simp add: literalPattern_def)
  then have "globMatch ((keyPrefix cfg @ '':global:'') @ ''*'') ((keyPrefix cfg @ '':global:'') @ e)"
    by (rule globMatch_literal)
  then have "globMatch (keyPattern cfg ''global'' None None) (keyPrefix cfg @ '':global:'' @ e)"
    by (simp add: keyPattern_def truthyString_def)
  then have "keyPrefix cfg @ '':global:'' @ e \<in> set (redisKeys st (keyPattern cfg ''global'' None None))"
    by (rule key_listed[OF assms(2)])
  then show ?thesis
    using assms(2) by (auto simp: getEndpointStats_def Let_def)
qed

lemma performance_listed:
  assumes "literalPattern (keyPrefix cfg)" and "hgetall st (keyPrefix cfg @ '':performance:'' @ e) \<noteq> []"
  shows "performanceEntry cfg st (keyPrefix cfg @ '':performance:'' @ e)
           (hgetall st (keyPrefix cfg @ '':performance:'' @ e))
           \<in> set (getPerformanceStats cfg st None None)"
proof -
  have "literalPattern (keyPrefix cfg @ '':performance:'')"
    using assms(1) by (simp add: literalPattern_def)
  then have "globMatch ((keyPrefix cfg @ '':performance:'') @ ''*'') ((keyPrefix cfg @ '':performance:'') @ e)"
    by (rule globMatch_literal)
  then have "globMatch (keyPattern cfg ''performance'' None None) (keyPrefix cfg @ '':performance:'' @ e)"
    by (simp add: keyPattern_def truthyString_def)
  then have "keyPrefix cfg @ '':performance:'' @ e
               \<in> set (redisKeys st (keyPattern cfg ''performance'' None None))"
    by (rule key_listed[OF assms(2)])
  then show ?thesis
    using assms(2) by (auto simp: getPerformanceStats_def Let_def)
qed

lemma tracked_record:
  assumes "shouldTrackPath cfg (path u)" and "key \<in> set (aggregateKeys cfg today u)"
  shows "hgetall (trackUsage cfg now today u st) key \<noteq> []"
proof
  assume "hgetall (trackUsage cfg now today u st) key = []"
  then have "fieldAt (trackUsage cfg now today u st) key ''last_accessed'' = None"
    by (simp add: fieldAt_def hget_def)
  then show False
    using assms by (simp add: trackUsage_last)
qed

lemma sample_endpoint_get:
  "normalizeEndpoint sampleConfig ''get'' ''/users/42'' = ''GET:/users/:id''"
  using sample_endpoint by (simp add: sampleEvent_def)

lemma sample_literal: "literalPattern (keyPrefix sampleConfig)"
  by (simp add: literalPattern_def sampleConfig_def)

lemma sample_prefix: "keyPrefix sampleConfig = ''endpoint_usage''"
  by (simp add: sampleConfig_def)

text \<open>
  C4: for a verb without a colon and a normalised path with one, the entry either reader
  builds from the endpoint's key carries the path cut before its first colon, which is not
  the normalised path, and no entry either reader returns carries the normalised path. Where
  the key prefix has no character special in a key pattern, each reader returns an entry with
  the upper-cased verb and the cut path from every store that holds a record under the
  endpoint's key, and so from the store in which \<open>trackUsage\<close> has recorded a request
  with that verb and path (for the performance reader, with performance tracking enabled).
\<close>

theorem statPath_truncated:
  assumes "CHR '':'' \<notin> set m" and "CHR '':'' \<in> set (normalizedPath cfg p)"
  shows "statPath (globalEntry cfg (keyPrefix cfg @ '':global:'' @ normalizeEndpoint cfg m p) data)
           = Some (takeWhile (\<lambda>c. c \<noteq> CHR '':'') (normalizedPath cfg p))
       \<and> statPath (performanceEntry cfg st
                     (keyPrefix cfg @ '':performance:'' @ normalizeEndpoint cfg m p) data')
           = Some (takeWhile (\<lambda>c. c \<noteq> CHR '':'') (normalizedPath cfg p))
       \<and> takeWhile (\<lambda>c. c \<noteq> CHR '':'') (normalizedPath cfg p) \<noteq> normalizedPath cfg p
       \<and> Some (normalizedPath cfg p) \<notin> statPath ` set (getEndpointStats cfg st' mo po)
       \<and> Some (normalizedPath cfg p) \<notin> statPath ` set (getPerformanceStats cfg st' mo po)
       \<and> (literalPattern (keyPrefix cfg)
            \<and> hgetall st1 (keyPrefix cfg @ '':global:'' @ normalizeEndpoint cfg m p) \<noteq> []
           \<longrightarrow> (\<exists>s \<in> set (getEndpointStats cfg st1 None None).
                  statMethod s = toUpperCase m
                  \<and> statPath s = Some (takeWhile (\<lambda>c. c \<noteq> CHR '':'') (normalizedPath cfg p))))
       \<and> (literalPattern (keyPrefix cfg)
            \<and> hgetall st2 (keyPrefix cfg @ '':performance:'' @ normalizeEndpoint cfg m p) \<noteq> []
           \<longrightarrow> (\<exists>s \<in> set (getPerformanceStats cfg st2 None None).
                  statMethod s = toUpperCase m
                  \<and> statPath s = Some (takeWhile (\<lambda>c. c \<noteq> CHR '':'') (normalizedPath cfg p))))
       \<and> (literalPattern (keyPrefix cfg) \<and> shouldTrackPath cfg p
           \<longrightarrow> (\<exists>s \<in> set (getEndpointStats cfg
                              (trackUsage cfg now today (u\<lparr>httpMethod := m, path := p\<rparr>) st0) None None).
                  statMethod s = toUpperCase m
                  \<and> statPath s = Some (takeWhile (\<lambda>c. c \<noteq> CHR '':'') (normalizedPath cfg p))))
       \<and> (literalPattern (keyPrefix cfg) \<and> shouldTrackPath cfg p \<and> enabled (performanceTracking cfg)
           \<longrightarrow> (\<exists>s \<in> set (getPerformanceStats cfg
                              (trackUsage cfg now today (u\<lparr>httpMethod := m, path := p\<rparr>) st0) None None).
                  statMethod s = toUpperCase m
                  \<and> statPath s = Some (takeWhile (\<lambda>c. c \<noteq> CHR '':'') (normalizedPath cfg p))))"
proof -
  define e where "e = normalizeEndpoint cfg m p"
  define q where "q = takeWhile (\<lambda>c. c \<noteq> CHR '':'') (normalizedPath cfg p)"
  define w where "w = u\<lparr>httpMethod := m, path := p\<rparr>"
  have u: "CHR '':'' \<notin> set (toUpperCase m)"
    using assms(1) by (rule toUpperCase_colon)
  have g: "removeFirst (keyPrefix cfg @ '':global:'') (keyPrefix cfg @ '':global:'' @ e) = e"
    using removeFirst_prefix[of "keyPrefix cfg @ '':global:''" e] by simp
  have f: "removeFirst (keyPrefix cfg @ '':performance:'') (keyPrefix cfg @ '':performance:'' @ e) = e"
    using removeFirst_prefix[of "keyPrefix cfg @ '':performance:''" e] by simp
  have s: "split2 CHR '':'' e = (toUpperCase m, Some q)"
    using split2_joined[OF u] by (simp add: normalizeEndpoint_def e_def q_def)
  have a: "statPath (globalEntry cfg (keyPrefix cfg @ '':global:'' @ e) d) = Some q"
    and am: "statMethod (globalEntry cfg (keyPrefix cfg @ '':global:'' @ e) d) = toUpperCase m" for d
    unfolding globalEntry_def Let_def g s by simp_all
  have b: "statPath (performanceEntry cfg t (keyPrefix cfg @ '':performance:'' @ e) d) = Some q"
    and bm: "statMethod (performanceEntry cfg t (keyPrefix cfg @ '':performance:'' @ e) d) = toUpperCase m"
    for t d
    unfolding performanceEntry_def Let_def f s by simp_all
  have c: "q \<noteq> normalizedPath cfg p"
    unfolding q_def using assms(2) by (rule takeWhile_proper)
  have d: "Some (normalizedPath cfg p) \<notin> statPath ` set (getEndpointStats cfg st' mo po)"
    using assms(2) statPath_getEndpointStats by force
  have d': "Some (normalizedPath cfg p) \<notin> statPath ` set (getPerformanceStats cfg st' mo po)"
    using assms(2) statPath_getPerformanceStats by force
  have r1: "\<exists>s \<in> set (getEndpointStats cfg t None None). statMethod s = toUpperCase m \<and> statPath s = Some q"
    if "literalPattern (keyPrefix cfg)" and "hgetall t (keyPrefix cfg @ '':global:'' @ e) \<noteq> []" for t
    using global_listed[OF that] a am by blast
  have r2: "\<exists>s \<in> set (getPerformanceStats cfg t None None). statMethod s = toUpperCase m \<and> statPath s = Some q"
    if "literalPattern (keyPrefix cfg)" and "hgetall t (keyPrefix cfg @ '':performance:'' @ e) \<noteq> []" for t
    using performance_listed[OF that] b bm by blast
  have k1: "keyPrefix cfg @ '':global:'' @ e \<in> set (aggregateKeys cfg today w)"
    by (simp add: aggregateKeys_def Let_def e_def w_def)
  have k2: "keyPrefix cfg @ '':performance:'' @ e \<in> set (aggregateKeys cfg today w)"
    if "enabled (performanceTracking cfg)"
    using that by (simp add: aggregateKeys_def Let_def e_def w_def)
  have w1: "hgetall (trackUsage cfg now today w st0) (keyPrefix cfg @ '':global:'' @ e) \<noteq> []"
    if "shouldTrackPath cfg p"
    using tracked_record[OF _ k1, of now st0] that by (simp add: w_def)
  have w2: "hgetall (trackUsage cfg now today w st0) (keyPrefix cfg @ '':performance:'' @ e) \<noteq> []"
    if "shouldTrackPath cfg p" and "enabled (performanceTracking cfg)"
    using tracked_record[OF _ k2, of now st0] that by (simp add: w_def)
  show ?thesis
    unfolding e_def[symmetric] q_def[symmetric] w_def[symmetric]
    using a b c d d' r1 r2 w1 w2 by (simp add: q_def)
qed

theorem statPath_truncated_witness:
  "statPath (globalEntry sampleConfig ''endpoint_usage:global:GET:/users/:id'' []) = Some ''/users/''
   \<and> statPath (performanceEntry sampleConfig emptyRedis
                 ''endpoint_usage:performance:GET:/users/:id'' []) = Some ''/users/''
   \<and> ''/users/'' \<noteq> ''/users/:id''
   \<and> Some ''/users/:id'' \<notin> statPath ` set (getEndpointStats sampleConfig seenStore None None)
   \<and> Some ''/users/:id'' \<notin> statPath ` set (getPerformanceStats sampleConfig seenStore None None)
   \<and> (\<exists>s \<in> set (getEndpointStats sampleConfig seenStore None None).
         statMethod s = ''GET'' \<and> statPath s = Some ''/users/'')
   \<and> (\<exists>s \<in> set (getPerformanceStats sampleConfig
                      (trackUsage sampleConfig 1000 ''1970-01-01'' sampleEvent emptyRedis) None None).
         statMethod s = ''GET'' \<and> statPath s = Some ''/users/'')
   \<and> (\<exists>s \<in> set (getEndpointStats sampleConfig
                      (trackUsage sampleConfig 1000 ''1970-01-01'' sampleEvent emptyRedis) None None).
         statMethod s = ''GET'' \<and> statPath s = Some ''/users/'')"
proof -
  have n1: "CHR '':'' \<notin> set ''get''"
    by simp
  have n2: "CHR '':'' \<in> set (normalizedPath sampleConfig ''/users/42'')"
    by (simp add: sample_path)
  have h1: "hgetall seenStore ''endpoint_usage:global:GET:/users/:id'' \<noteq> []"
    by (simp add: seenStore_def hgetall_def)
  have h2: "hgetall (trackUsage sampleConfig 1000 ''1970-01-01'' sampleEvent emptyRedis)
              ''endpoint_usage:performance:GET:/users/:id'' \<noteq> []"
    unfolding tracked_store by (simp add: hgetall_def)
  have tr: "shouldTrackPath sampleConfig ''/users/42''"
    using sample_tracked by (simp add: sampleEvent_def)
  have en: "enabled (performanceTracking sampleConfig)"
    by (simp add: sampleConfig_def)
  have ev: "sampleEvent\<lparr>httpMethod := ''get'', path := ''/users/42''\<rparr> = sampleEvent"
    by (simp add: sampleEvent_def)
  have up: "toUpperCase ''get'' = ''GET''"
    by (simp add: toUpperCase_def upperChar_def)
  have lp: "literalPattern ''endpoint_usage''"
    using sample_literal unfolding sample_prefix .
  show ?thesis
    using statPath_truncated[OF n1 n2, where data = "[]" and st = emptyRedis and data' = "[]"
        and st' = seenStore and mo = None and po = None and ?st1.0 = seenStore
        and ?st2.0 = "trackUsage sampleConfig 1000 ''1970-01-01'' sampleEvent emptyRedis"
        and now = 1000 and today = "''1970-01-01''" and u = sampleEvent and ?st0.0 = emptyRedis]
    unfolding sample_endpoint_get sample_path sample_prefix ev up
    using h1 h2 tr en lp by simp
qed

section \<open>The report and the scheduler tick\<close>

text \<open>
  C3: with no discovered route the percentage of unused routes is \<open>0 / 0 * 100\<close>, rounded:
  \<^verbatim>\<open>NaN\<close>, not 0.
\<close>

theorem generateReport_unusedPercentage_NaN:
  "unusedPercentage (summary (generateReport cfg rc st [] tz now)) = NaN"
  by (simp add: generateReport_def generateUsageReport_def findUnusedRoutes_def Let_def divide_number_def)

lemma generateReport_unusedPercentage:
  "routes \<noteq> [] \<Longrightarrow>
   unusedPercentage (summary (generateReport cfg rc st routes tz now)) =
     Num (of_int \<lfloor>real (length (findUnusedRoutes cfg st routes tz now (daysThreshold rc)))
                   / real (length routes) * 100 + 1 / 2\<rfloor>)"
  by (simp add: generateReport_def generateUsageReport_def Let_def divide_number_def)

lemma sample_unused_routes:
  "findUnusedRoutes sampleConfig sampleStore [(''GET:/health'', sampleRoute)] utcZone 6134400000 30 = []"
  unfolding findUnusedRoutes_def Let_def sample_stats
  by (simp add: sampleRoute_def jsString_def daysBefore_def utcZone_def)

lemma sample_report_empty:
  "unusedEndpoints (generateReport sampleConfig sampleReportConfig sampleStore
     [(''GET:/health'', sampleRoute)] utcZone 6134400000) = []"
  unfolding generateReport_def generateUsageReport_def Let_def
  by (simp add: sample_unused_routes sampleReportConfig_def)

text \<open>
  C8: a tick whose report lists no unused endpoint logs one line and does nothing else: no
  post to the webhook or to Slack, no e-mail, no HTML report.
\<close>

theorem generateAndSendReport_suppressed:
  "unusedEndpoints (generateReport cfg rc st routes tz now) = [] \<Longrightarrow>
   generateAndSendReport cfg rc net st routes tz now =
     [ConsoleLog ''No unused endpoints found, report not sent.'']"
  by (simp add: generateAndSendReport_def Let_def)

theorem generateAndSendReport_suppressed_witness:
  "generateAndSendReport sampleConfig sampleReportConfig (\<lambda>u. Ok) sampleStore
     [(''GET:/health'', sampleRoute)] utcZone 6134400000 =
     [ConsoleLog ''No unused endpoints found, report not sent.'']"
  using generateAndSendReport_suppressed[OF sample_report_empty] by simp

lemma generateAndSendReport_dispatch:
  "unusedEndpoints (generateReport cfg rc st routes tz now) \<noteq> [] \<Longrightarrow>
   webhook (notifications rc) = Some w \<Longrightarrow>
   Fetch (url w) (WebhookBody (summary (generateReport cfg rc st routes tz now))
                     (topUnusedEndpoints (generateReport cfg rc st routes tz now)))
     \<in> set (generateAndSendReport cfg rc net st routes tz now)"
  by (simp add: generateAndSendReport_def Let_def sendNotifications_def sendWebhookNotification_def)

end
